theory Spec2Isabelle
  imports Main "HOL-Library.Word" "HOL-Library.AList"
begin

unbundle bit_operations_syntax

section \<open>JavaScript values and objects\<close>

text \<open>
  The records handled by \<^verbatim>\<open>DatabaseManager\<close> (src/QTRACK/database.js) are plain
  JavaScript objects whose properties hold primitive values.  A string is a list of
  code units; the model covers the code units 0..255 (one \<^typ>\<open>char\<close> each).  A number
  is an integer.  An object is the ordered list of its own properties; reading a
  property that is not there gives \<^verbatim>\<open>undefined\<close>.
\<close>

datatype jsval = JUndefined | JNull | JBool bool | JNum int | JStr string

type_synonym obj = "(string \<times> jsval) list"

definition get_prop :: "obj \<Rightarrow> string \<Rightarrow> jsval" where
  "get_prop ob k = (case map_of ob k of None \<Rightarrow> JUndefined | Some v \<Rightarrow> v)"

text \<open>The assignment \<^verbatim>\<open>ob.k = v\<close>: an existing property keeps its place.\<close>

definition set_prop :: "string \<Rightarrow> jsval \<Rightarrow> obj \<Rightarrow> obj" where
  "set_prop k v ob = AList.update k v ob"

fun truthy :: "jsval \<Rightarrow> bool" where
  "truthy JUndefined = False"
| "truthy JNull = False"
| "truthy (JBool b) = b"
| "truthy (JNum n) = (n \<noteq> 0)"
| "truthy (JStr s) = (s \<noteq> [])"

fun typeof :: "jsval \<Rightarrow> string" where
  "typeof JUndefined = ''undefined''"
| "typeof JNull = ''object''"
| "typeof (JBool b) = ''boolean''"
| "typeof (JNum n) = ''number''"
| "typeof (JStr s) = ''string''"

definition digit_char :: "nat \<Rightarrow> char" where
  "digit_char d = char_of (48 + d)"

fun decimal :: "nat \<Rightarrow> string" where
  "decimal n = (if n < 10 then [digit_char n] else decimal (n div 10) @ [digit_char (n mod 10)])"

declare decimal.simps [simp del]

text \<open>\<^verbatim>\<open>ToString\<close>, the conversion \<^verbatim>\<open>RegExp.prototype.test\<close> and \<^verbatim>\<open>TextEncoder.encode\<close>
  apply to their argument.\<close>

fun ToString :: "jsval \<Rightarrow> string" where
  "ToString JUndefined = ''undefined''"
| "ToString JNull = ''null''"
| "ToString (JBool b) = (if b then ''true'' else ''false'')"
| "ToString (JNum n) = (if n < 0 then CHR ''-'' # decimal (nat (- n)) else decimal (nat n))"
| "ToString (JStr s) = s"

text \<open>\<^verbatim>\<open>Array.prototype.join\<close>.\<close>

fun join :: "string \<Rightarrow> string list \<Rightarrow> string" where
  "join sep [] = []"
| "join sep [x] = x"
| "join sep (x # y # ys) = x @ sep @ join sep (y # ys)"

section \<open>The regular expression of the email check\<close>

text \<open>
  \<^verbatim>\<open>/^[^\s@]+@[^\s@]+\.[^\s@]+$/\<close> uses two kinds of atom, a literal character and the
  class \<^verbatim>\<open>[^\s@]\<close>, each taken once or one-or-more times, between the anchors
  \<^verbatim>\<open>^\<close> and \<^verbatim>\<open>$\<close>.  \<^verbatim>\<open>\s\<close> is, among the code units 0..255, TAB, LF, VT, FF, CR,
  SPACE and NBSP.
\<close>

definition is_space :: "char \<Rightarrow> bool" where
  "is_space c = ((of_char c :: nat) \<in> {9, 10, 11, 12, 13, 32, 160})"

datatype atom = Lit char | NotSpaceAt

fun atom_ok :: "atom \<Rightarrow> char \<Rightarrow> bool" where
  "atom_ok (Lit d) c = (c = d)"
| "atom_ok NotSpaceAt c = (\<not> is_space c \<and> c \<noteq> CHR ''@'')"

text \<open>An anchored match of a sequence of atoms; the flag marks \<^verbatim>\<open>+\<close>.\<close>

fun rmatch :: "(atom \<times> bool) list \<Rightarrow> string \<Rightarrow> bool" where
  "rmatch [] s = (s = [])"
| "rmatch ((a, many) # r) [] = False"
| "rmatch ((a, many) # r) (c # cs) =
     (atom_ok a c \<and> ((many \<and> rmatch ((a, many) # r) cs) \<or> rmatch r cs))"

definition emailRegex :: "(atom \<times> bool) list" where
  "emailRegex = [(NotSpaceAt, True), (Lit CHR ''@'', False), (NotSpaceAt, True),
                 (Lit CHR ''.'', False), (NotSpaceAt, True)]"

definition regex_test :: "(atom \<times> bool) list \<Rightarrow> jsval \<Rightarrow> bool" where
  "regex_test r v = rmatch r (ToString v)"

section \<open>Errors\<close>

text \<open>
  A thrown value: an \<^verbatim>\<open>Error\<close> with its message, a \<^verbatim>\<open>TypeError\<close> of the engine (reading
  a property of \<^verbatim>\<open>undefined\<close>, an invalid transaction mode), a \<^verbatim>\<open>DOMException\<close> of the
  store with its name, and the error that \<^verbatim>\<open>initDatabase\<close> builds around the store's
  error when the open request fails (\<^verbatim>\<open>Erreur d'ouverture DB: ...\<close>).
\<close>

datatype error = Error string | TypeError | DOMException string | OpenError error

section \<open>Column descriptors\<close>

text \<open>
  The column objects of \<^verbatim>\<open>createTables\<close> and of the schemas passed to \<^verbatim>\<open>validateData\<close>.
  A flag the object literal leaves out is \<^verbatim>\<open>undefined\<close>, which every test of the source
  reads as false; a missing \<^verbatim>\<open>validation\<close>, \<^verbatim>\<open>default\<close> or \<^verbatim>\<open>options\<close> is \<open>None\<close>.
\<close>

record column =
  name :: string
  key :: bool
  autoIncrement :: bool
  unique :: bool
  encrypted :: bool
  default_value :: "string option"
  options :: "string list option"
  required :: bool
  validation :: "string option"

definition col :: "string \<Rightarrow> column" where
  "col n = \<lparr>name = n, key = False, autoIncrement = False, unique = False, encrypted = False,
            default_value = None, options = None, required = False, validation = None\<rparr>"

section \<open>validateData\<close>

definition e_acute :: char where "e_acute = CHR 0xE9"
definition e_circ :: char where "e_circ = CHR 0xEA"
definition i_circ :: char where "i_circ = CHR 0xEE"

definition msg_requis :: "string \<Rightarrow> string" where
  "msg_requis n = n @ '' est requis''"

definition msg_chaine :: "string \<Rightarrow> string" where
  "msg_chaine n = n @ '' doit '' @ [e_circ] @ ''tre une cha'' @ [i_circ] @ ''ne de caract''
     @ [CHR 0xE8] @ ''res''"

definition msg_nombre :: "string \<Rightarrow> string" where
  "msg_nombre n = n @ '' doit '' @ [e_circ] @ ''tre un nombre''"

definition msg_email :: "string \<Rightarrow> string" where
  "msg_email n = n @ '' n'' @ [CHR 0x27] @ ''est pas un email valide''"

definition msg_enum :: "string \<Rightarrow> string list \<Rightarrow> string" where
  "msg_enum n opts = n @ '' doit '' @ [e_circ] @ ''tre l'' @ [CHR 0x27]
     @ ''une des valeurs: '' @ join '', '' opts"

definition msg_date :: "string \<Rightarrow> string" where
  "msg_date n = n @ '' doit '' @ [e_circ] @ ''tre une date valide''"

definition msg_validation :: "string list \<Rightarrow> string" where
  "msg_validation errors = ''Validation '' @ [e_acute] @ ''chou'' @ [e_acute] @ ''e: ''
     @ join '', '' errors"

text \<open>\<^verbatim>\<open>Array.prototype.includes\<close> on an array of strings.\<close>

fun array_includes :: "string list \<Rightarrow> jsval \<Rightarrow> bool" where
  "array_includes opts (JStr s) = (s \<in> set opts)"
| "array_includes opts v = False"

text \<open>
  The body of the \<^verbatim>\<open>schema.forEach\<close> callback: it pushes onto \<^verbatim>\<open>errors\<close>, and it throws
  where the source reads \<^verbatim>\<open>column.options.includes\<close> on a column without \<^verbatim>\<open>options\<close>.
  \<open>dateParse s\<close> says that \<^verbatim>\<open>Date.parse(s)\<close> is a number (not \<^verbatim>\<open>NaN\<close>); the date formats a
  browser accepts are the host's, so the function is a parameter.
\<close>

definition validateColumn ::
  "(string \<Rightarrow> bool) \<Rightarrow> obj \<Rightarrow> column \<Rightarrow> string list \<Rightarrow> error + string list" where
  "validateColumn dateParse data column errors =
    (let v = get_prop data (name column);
         errors1 = (if required column \<and> (v = JUndefined \<or> v = JNull \<or> v = JStr [])
                    then errors @ [msg_requis (name column)] else errors)
     in if v \<noteq> JUndefined \<and> v \<noteq> JNull then
          (if validation column = Some ''string'' then
             Inr (if typeof v \<noteq> ''string'' then errors1 @ [msg_chaine (name column)] else errors1)
           else if validation column = Some ''number'' then
             Inr (if typeof v \<noteq> ''number'' then errors1 @ [msg_nombre (name column)] else errors1)
           else if validation column = Some ''email'' then
             Inr (if \<not> regex_test emailRegex v then errors1 @ [msg_email (name column)] else errors1)
           else if validation column = Some ''enum'' then
             (case options column of
                None \<Rightarrow> Inl TypeError
              | Some opts \<Rightarrow>
                  Inr (if \<not> array_includes opts v then errors1 @ [msg_enum (name column) opts]
                       else errors1))
           else if validation column = Some ''timestamp'' then
             Inr (if \<not> dateParse (ToString v) then errors1 @ [msg_date (name column)] else errors1)
           else Inr errors1)
        else Inr errors1)"

text \<open>\<^verbatim>\<open>schema.forEach\<close>: an exception of the callback ends the loop.\<close>

fun validateLoop ::
  "(string \<Rightarrow> bool) \<Rightarrow> obj \<Rightarrow> column list \<Rightarrow> string list \<Rightarrow> error + string list" where
  "validateLoop dateParse data [] errors = Inr errors"
| "validateLoop dateParse data (c # cs) errors =
     (case validateColumn dateParse data c errors of
        Inl e \<Rightarrow> Inl e
      | Inr errors' \<Rightarrow> validateLoop dateParse data cs errors')"

definition validateData :: "(string \<Rightarrow> bool) \<Rightarrow> obj \<Rightarrow> column list \<Rightarrow> error + unit" where
  "validateData dateParse data schema =
     (case validateLoop dateParse data schema [] of
        Inl e \<Rightarrow> Inl e
      | Inr errors \<Rightarrow>
          if length errors > 0 then Inl (Error (msg_validation errors)) else Inr ())"

section \<open>hashPassword\<close>

text \<open>
  \<^verbatim>\<open>crypto.subtle.digest('SHA-256', data)\<close> is the SHA-256 of FIPS 180-4 on the bytes of
  \<^verbatim>\<open>data\<close>: the message is padded to whole 64-byte blocks, each block is expanded to a
  schedule of 64 words and run through 64 rounds.
\<close>

type_synonym byte = "8 word"
type_synonym w32 = "32 word"

definition K256 :: "w32 list" where
  "K256 = [
   0x428A2F98, 0x71374491, 0xB5C0FBCF, 0xE9B5DBA5, 0x3956C25B, 0x59F111F1, 0x923F82A4, 0xAB1C5ED5,
   0xD807AA98, 0x12835B01, 0x243185BE, 0x550C7DC3, 0x72BE5D74, 0x80DEB1FE, 0x9BDC06A7, 0xC19BF174,
   0xE49B69C1, 0xEFBE4786, 0x0FC19DC6, 0x240CA1CC, 0x2DE92C6F, 0x4A7484AA, 0x5CB0A9DC, 0x76F988DA,
   0x983E5152, 0xA831C66D, 0xB00327C8, 0xBF597FC7, 0xC6E00BF3, 0xD5A79147, 0x06CA6351, 0x14292967,
   0x27B70A85, 0x2E1B2138, 0x4D2C6DFC, 0x53380D13, 0x650A7354, 0x766A0ABB, 0x81C2C92E, 0x92722C85,
   0xA2BFE8A1, 0xA81A664B, 0xC24B8B70, 0xC76C51A3, 0xD192E819, 0xD6990624, 0xF40E3585, 0x106AA070,
   0x19A4C116, 0x1E376C08, 0x2748774C, 0x34B0BCB5, 0x391C0CB3, 0x4ED8AA4A, 0x5B9CCA4F, 0x682E6FF3,
   0x748F82EE, 0x78A5636F, 0x84C87814, 0x8CC70208, 0x90BEFFFA, 0xA4506CEB, 0xBEF9A3F7, 0xC67178F2]"

definition H256 :: "w32 list" where
  "H256 = [0x6A09E667, 0xBB67AE85, 0x3C6EF372, 0xA54FF53A,
           0x510E527F, 0x9B05688C, 0x1F83D9AB, 0x5BE0CD19]"

definition rotr :: "nat \<Rightarrow> w32 \<Rightarrow> w32" where
  "rotr n x = (drop_bit n x) OR (push_bit (32 - n) x)"

definition Ch :: "w32 \<Rightarrow> w32 \<Rightarrow> w32 \<Rightarrow> w32" where
  "Ch x y z = (x AND y) XOR (NOT x AND z)"
definition Maj :: "w32 \<Rightarrow> w32 \<Rightarrow> w32 \<Rightarrow> w32" where
  "Maj x y z = (x AND y) XOR (x AND z) XOR (y AND z)"
definition Sigma0 :: "w32 \<Rightarrow> w32" where
  "Sigma0 x = rotr 2 x XOR rotr 13 x XOR rotr 22 x"
definition Sigma1 :: "w32 \<Rightarrow> w32" where
  "Sigma1 x = rotr 6 x XOR rotr 11 x XOR rotr 25 x"
definition sigma0 :: "w32 \<Rightarrow> w32" where
  "sigma0 x = rotr 7 x XOR rotr 18 x XOR drop_bit 3 x"
definition sigma1 :: "w32 \<Rightarrow> w32" where
  "sigma1 x = rotr 17 x XOR rotr 19 x XOR drop_bit 10 x"

definition be64 :: "nat \<Rightarrow> byte list" where
  "be64 n = map (\<lambda>i. ucast (drop_bit (8 * (7 - i)) (of_nat n :: 64 word))) [0..<8]"

definition sha_pad :: "byte list \<Rightarrow> byte list" where
  "sha_pad m = m @ [0x80] @ replicate ((119 - length m mod 64) mod 64) 0 @ be64 (8 * length m)"

fun be32 :: "byte list \<Rightarrow> w32" where
  "be32 [] = 0"
| "be32 (b # bs) = push_bit (8 * length bs) (ucast b) OR be32 bs"

definition blocks64 :: "byte list \<Rightarrow> byte list list" where
  "blocks64 m = map (\<lambda>i. take 64 (drop (64 * i) m)) [0..<length m div 64]"

definition block_words :: "byte list \<Rightarrow> w32 list" where
  "block_words b = map (\<lambda>i. be32 (take 4 (drop (4 * i) b))) [0..<16]"

fun extend :: "nat \<Rightarrow> w32 list \<Rightarrow> w32 list" where
  "extend 0 w = w"
| "extend (Suc n) w =
     extend n (w @ [sigma1 (w ! (length w - 2)) + w ! (length w - 7)
                    + sigma0 (w ! (length w - 15)) + w ! (length w - 16)])"

definition schedule :: "byte list \<Rightarrow> w32 list" where
  "schedule b = extend 48 (block_words b)"

fun round256 :: "w32 list \<Rightarrow> w32 \<times> w32 \<Rightarrow> w32 list" where
  "round256 [a, b, c, d, e, f, g, h] (k, w) =
     (let T1 = h + Sigma1 e + Ch e f g + k + w;
          T2 = Sigma0 a + Maj a b c
      in [T1 + T2, a, b, c, d + T1, e, f, g])"
| "round256 v kw = v"

definition compress :: "w32 list \<Rightarrow> byte list \<Rightarrow> w32 list" where
  "compress H b = map2 (+) H (foldl round256 H (zip K256 (schedule b)))"

definition be32_bytes :: "w32 \<Rightarrow> byte list" where
  "be32_bytes x = [ucast (drop_bit 24 x), ucast (drop_bit 16 x), ucast (drop_bit 8 x), ucast x]"

definition sha256 :: "byte list \<Rightarrow> byte list" where
  "sha256 m = concat (map be32_bytes (foldl compress H256 (blocks64 (sha_pad m))))"

definition hex_chars :: string where
  "hex_chars = ''0123456789abcdef''"

definition hex_digit :: "nat \<Rightarrow> char" where
  "hex_digit d = hex_chars ! d"

definition hex2 :: "byte \<Rightarrow> string" where
  "hex2 b = [hex_digit (unat b div 16), hex_digit (unat b mod 16)]"

text \<open>\<^verbatim>\<open>TextEncoder.encode\<close>: UTF-8, one byte below 128 and two bytes up to 255.\<close>

definition utf8 :: "string \<Rightarrow> byte list" where
  "utf8 s = concat (map (\<lambda>c. let n = (of_char c :: nat) in
              if n < 128 then [of_nat n] else [of_nat (192 + n div 64), of_nat (128 + n mod 64)]) s)"

text \<open>\<^verbatim>\<open>hashArray.map(b => b.toString(16).padStart(2, '0')).join('')\<close> is \<open>hex2\<close> on
  every byte.\<close>

definition hashPassword :: "jsval \<Rightarrow> string" where
  "hashPassword password = concat (map hex2 (sha256 (utf8 (ToString password))))"

section \<open>The embedded store\<close>

text \<open>
  The part of IndexedDB the manager calls.  A key is a number or a string; numbers sort
  before strings, strings by code units.  An object store has a key path, a key
  generator when it was created with \<^verbatim>\<open>autoIncrement: true\<close> (its current number) and
  none otherwise, its records in key order, and its indexes.
\<close>

fun valid_key :: "jsval \<Rightarrow> bool" where
  "valid_key (JNum n) = True"
| "valid_key (JStr s) = True"
| "valid_key v = False"

fun str_less :: "string \<Rightarrow> string \<Rightarrow> bool" where
  "str_less [] [] = False"
| "str_less [] (y # ys) = True"
| "str_less (x # xs) [] = False"
| "str_less (x # xs) (y # ys) =
     ((of_char x :: nat) < of_char y \<or> (x = y \<and> str_less xs ys))"

fun key_less :: "jsval \<Rightarrow> jsval \<Rightarrow> bool" where
  "key_less (JNum a) (JNum b) = (a < b)"
| "key_less (JNum a) (JStr t) = True"
| "key_less (JStr s) (JStr t) = str_less s t"
| "key_less v w = False"

record idx =
  ix_name :: string
  ix_keyPath :: string
  ix_unique :: bool

record objectStore =
  os_keyPath :: string
  os_generator :: "nat option"
  os_records :: "(jsval \<times> obj) list"
  os_indexes :: "idx list"

record database =
  version :: nat
  objectStores :: "(string \<times> objectStore) list"

fun insert_record :: "jsval \<Rightarrow> obj \<Rightarrow> (jsval \<times> obj) list \<Rightarrow> (jsval \<times> obj) list" where
  "insert_record k v [] = [(k, v)]"
| "insert_record k v ((k', v') # rs) =
     (if key_less k k' then (k, v) # (k', v') # rs else (k', v') # insert_record k v rs)"

text \<open>A unique index refuses a record whose index key another record already has.\<close>

definition unique_clash :: "objectStore \<Rightarrow> obj \<Rightarrow> bool" where
  "unique_clash s v =
     list_ex (\<lambda>ix. ix_unique ix \<and> valid_key (get_prop v (ix_keyPath ix)) \<and>
                list_ex (\<lambda>r. get_prop (snd r) (ix_keyPath ix) = get_prop v (ix_keyPath ix))
                  (os_records s))
       (os_indexes s)"

definition store_insert :: "objectStore \<Rightarrow> jsval \<Rightarrow> obj \<Rightarrow> error + jsval \<times> objectStore" where
  "store_insert s k v =
     (if k \<in> set (map fst (os_records s)) then Inl (DOMException ''ConstraintError'')
      else if unique_clash s v then Inl (DOMException ''ConstraintError'')
      else Inr (k, s\<lparr>os_records := insert_record k v (os_records s)\<rparr>))"

text \<open>A number given as key moves the generator past it.\<close>

fun bump_generator :: "jsval \<Rightarrow> nat option \<Rightarrow> nat option" where
  "bump_generator (JNum n) (Some g) =
     (if int g \<le> min n (2 ^ 53) then Some (nat (min n (2 ^ 53)) + 1) else Some g)"
| "bump_generator k g = g"

text \<open>
  \<^verbatim>\<open>store.add(value)\<close> on a store with in-line keys.  The key is read at the key path; a
  value there that is no key is a \<^verbatim>\<open>DataError\<close>.  With no value there the generator
  gives the key, which is written into the stored copy; a store without generator
  answers \<^verbatim>\<open>DataError\<close>.  A key or unique index key already present is a
  \<^verbatim>\<open>ConstraintError\<close>.  A failed request leaves the store as it was.
\<close>

definition store_add :: "objectStore \<Rightarrow> obj \<Rightarrow> error + jsval \<times> objectStore" where
  "store_add s v =
     (let k = get_prop v (os_keyPath s) in
      if k = JUndefined then
        (case os_generator s of
           None \<Rightarrow> Inl (DOMException ''DataError'')
         | Some g \<Rightarrow>
             if g > 2 ^ 53 then Inl (DOMException ''ConstraintError'')
             else store_insert (s\<lparr>os_generator := Some (g + 1)\<rparr>) (JNum (int g))
                    (set_prop (os_keyPath s) (JNum (int g)) v))
      else if valid_key k then
        store_insert (s\<lparr>os_generator := bump_generator k (os_generator s)\<rparr>) k v
      else Inl (DOMException ''DataError''))"

text \<open>\<^verbatim>\<open>store.index(name)\<close>, \<^verbatim>\<open>index.get(key)\<close> and \<^verbatim>\<open>store.getAll()\<close>.  \<^verbatim>\<open>get\<close> answers the
  first record of the index with that key, or \<^verbatim>\<open>undefined\<close> (\<open>None\<close>).\<close>

definition store_index :: "objectStore \<Rightarrow> string \<Rightarrow> error + idx" where
  "store_index s n =
     (case find (\<lambda>ix. ix_name ix = n) (os_indexes s) of
        None \<Rightarrow> Inl (DOMException ''NotFoundError'')
      | Some ix \<Rightarrow> Inr ix)"

definition index_get :: "objectStore \<Rightarrow> idx \<Rightarrow> jsval \<Rightarrow> error + obj option" where
  "index_get s ix k =
     (if valid_key k
      then Inr (map_option snd (find (\<lambda>r. get_prop (snd r) (ix_keyPath ix) = k) (os_records s)))
      else Inl (DOMException ''DataError''))"

definition store_getAll :: "objectStore \<Rightarrow> obj list" where
  "store_getAll s = map snd (os_records s)"

text \<open>\<^verbatim>\<open>createObjectStore\<close> and \<^verbatim>\<open>createIndex\<close>, on the stores of a database under upgrade.\<close>

fun insert_store ::
  "string \<Rightarrow> objectStore \<Rightarrow> (string \<times> objectStore) list \<Rightarrow> (string \<times> objectStore) list" where
  "insert_store n s [] = [(n, s)]"
| "insert_store n s ((n', s') # rest) =
     (if str_less n n' then (n, s) # (n', s') # rest else (n', s') # insert_store n s rest)"

definition createObjectStore :: "string \<Rightarrow> string \<Rightarrow> bool \<Rightarrow> objectStore" where
  "createObjectStore n kp autoInc =
     \<lparr>os_keyPath = kp, os_generator = (if autoInc then Some 1 else None),
      os_records = [], os_indexes = []\<rparr>"

definition createIndex :: "string \<Rightarrow> string \<Rightarrow> bool \<Rightarrow> objectStore \<Rightarrow> error + objectStore" where
  "createIndex n kp uniq s =
     (if n \<in> set (map ix_name (os_indexes s)) then Inl (DOMException ''ConstraintError'')
      else Inr (s\<lparr>os_indexes := os_indexes s @ [\<lparr>ix_name = n, ix_keyPath = kp, ix_unique = uniq\<rparr>]\<rparr>))"

section \<open>The manager and the browser\<close>

text \<open>
  The fields of the \<^verbatim>\<open>DatabaseManager\<close> object, followed by what it sees of the browser:
  the console, whether \<^verbatim>\<open>window.indexedDB\<close> exists, \<^verbatim>\<open>Date.parse\<close>, and the database
  stored under \<^verbatim>\<open>dbName\<close> (version 0 when there is none).  \<open>opened\<close> lists the
  transactions \<^verbatim>\<open>db.transaction\<close> has handed out.  \<^verbatim>\<open>this.db\<close> is \<^verbatim>\<open>null\<close> or a connection,
  which is inside its upgrade, open, or closed.  An asynchronous method is run to its
  end before the next one starts.
\<close>

datatype connection = Upgrading | Live | Closed

datatype txmode = Readonly | Readwrite | Versionchange

record transaction =
  tx_scope :: "string list"
  tx_mode :: txmode

datatype log_entry = INFO string | ERROR string error

record state =
  db :: "connection option"
  dbVersion :: nat
  dbName :: string
  initializationPromise :: bool
  console :: "log_entry list"
  hasIndexedDB :: bool
  dateParse :: "string \<Rightarrow> bool"
  disk :: database
  opened :: "(string list \<times> txmode) list"

definition logInfo :: "string \<Rightarrow> state \<Rightarrow> state" where
  "logInfo event st = st\<lparr>console := console st @ [INFO event]\<rparr>"

definition logError :: "string \<Rightarrow> error \<Rightarrow> state \<Rightarrow> state" where
  "logError event e st = st\<lparr>console := console st @ [ERROR event e]\<rparr>"

text \<open>The state apart from the console: no method reads what was logged.\<close>

definition quiet :: "state \<Rightarrow> state" where
  "quiet st = st\<lparr>console := []\<rparr>"

definition msg_non_initialisee :: string where
  "msg_non_initialisee = ''Base de donn'' @ [e_acute] @ ''es non initialis'' @ [e_acute] @ ''e''"

definition msg_non_supporte :: string where
  "msg_non_supporte = ''IndexedDB non support'' @ [e_acute] @ '' par ce navigateur''"

text \<open>
  \<^verbatim>\<open>this.db.transaction(storeNames, mode)\<close>: an \<^verbatim>\<open>InvalidStateError\<close> while the connection is
  inside its upgrade or closed, a \<^verbatim>\<open>NotFoundError\<close> for a name that is no store, an
  \<^verbatim>\<open>InvalidAccessError\<close> for no name, a \<^verbatim>\<open>TypeError\<close> for a mode other than
  \<^verbatim>\<open>readonly\<close> and \<^verbatim>\<open>readwrite\<close>, in this order.
\<close>

definition db_transaction ::
  "string list \<Rightarrow> txmode \<Rightarrow> state \<Rightarrow> (error + transaction) \<times> state" where
  "db_transaction names mode st =
     (case db st of
        None \<Rightarrow> (Inl TypeError, st)
      | Some Upgrading \<Rightarrow> (Inl (DOMException ''InvalidStateError''), st)
      | Some Closed \<Rightarrow> (Inl (DOMException ''InvalidStateError''), st)
      | Some Live \<Rightarrow>
          if \<not> list_all (\<lambda>n. n \<in> set (map fst (objectStores (disk st)))) names
          then (Inl (DOMException ''NotFoundError''), st)
          else if names = [] then (Inl (DOMException ''InvalidAccessError''), st)
          else if mode = Versionchange then (Inl TypeError, st)
          else (Inr \<lparr>tx_scope = names, tx_mode = mode\<rparr>,
                st\<lparr>opened := opened st @ [(names, mode)]\<rparr>))"

text \<open>\<^verbatim>\<open>transaction.objectStore(name)\<close>.\<close>

definition tx_objectStore :: "transaction \<Rightarrow> string \<Rightarrow> state \<Rightarrow> error + objectStore" where
  "tx_objectStore tx n st =
     (if n \<in> set (tx_scope tx) then
        (case map_of (objectStores (disk st)) n of
           None \<Rightarrow> Inl (DOMException ''NotFoundError'')
         | Some s \<Rightarrow> Inr s)
      else Inl (DOMException ''NotFoundError''))"

text \<open>The request \<^verbatim>\<open>store.add(value)\<close> of the three add methods, inside its transaction:
  the promise resolves with \<^verbatim>\<open>request.result\<close>, the key, or rejects with the error.\<close>

definition request_add ::
  "string \<Rightarrow> obj \<Rightarrow> transaction \<Rightarrow> state \<Rightarrow> (error + jsval) \<times> state" where
  "request_add n v tx st =
     (case tx_objectStore tx n st of
        Inl e \<Rightarrow> (Inl e, st)
      | Inr s \<Rightarrow>
          if tx_mode tx = Readonly then (Inl (DOMException ''ReadOnlyError''), st)
          else (case store_add s v of
                  Inl e \<Rightarrow> (Inl e, st)
                | Inr (k, s') \<Rightarrow>
                    (Inr k, st\<lparr>disk := (disk st)\<lparr>objectStores :=
                                AList.update n s' (objectStores (disk st))\<rparr>\<rparr>)))"

section \<open>createTables\<close>

definition tables :: "(string \<times> column list) list" where
  "tables =
    [(''users'',
       [(col ''id'')\<lparr>key := True, autoIncrement := True\<rparr>,
        (col ''username'')\<lparr>unique := True, validation := Some ''string''\<rparr>,
        (col ''password'')\<lparr>encrypted := True, validation := Some ''string''\<rparr>,
        (col ''role'')\<lparr>default_value := Some ''utilisateur'', validation := Some ''string''\<rparr>,
        (col ''email'')\<lparr>validation := Some ''email''\<rparr>]),
     (''non_conformites'',
       [(col ''id'')\<lparr>key := True, autoIncrement := True\<rparr>,
        (col ''type_defaut'')\<lparr>validation := Some ''string''\<rparr>,
        (col ''poste'')\<lparr>validation := Some ''string''\<rparr>,
        (col ''gravite'')\<lparr>options := Some [''Mineure'', ''Majeure'', ''Critique''],
                            validation := Some ''enum''\<rparr>,
        (col ''description'')\<lparr>validation := Some ''string''\<rparr>,
        (col ''statut'')\<lparr>default_value := Some ''Ouvert'', validation := Some ''string''\<rparr>,
        (col ''date_creation'')\<lparr>default_value := Some ''CURRENT_TIMESTAMP'',
                                  validation := Some ''timestamp''\<rparr>,
        (col ''id_declarant'')\<lparr>validation := Some ''number''\<rparr>]),
     (''actions_correctives'',
       [(col ''id'')\<lparr>key := True, autoIncrement := True\<rparr>,
        (col ''description'')\<lparr>validation := Some ''string''\<rparr>,
        (col ''responsable'')\<lparr>validation := Some ''string''\<rparr>,
        (col ''delai'')\<lparr>validation := Some ''number''\<rparr>,
        (col ''statut'')\<lparr>default_value := Some (''Non d'' @ [e_acute] @ ''marr'' @ [e_acute]),
                           validation := Some ''string''\<rparr>,
        (col ''id_nc'')\<lparr>validation := Some ''number''\<rparr>])]"

text \<open>
  \<^verbatim>\<open>table.columns.forEach\<close>: an index on every column but the key column, unique where
  the column says so.  The options object also carries \<^verbatim>\<open>options\<close> and \<^verbatim>\<open>encrypt\<close>, which
  \<^verbatim>\<open>createIndex\<close> does not read.
\<close>

fun createIndexes :: "column list \<Rightarrow> objectStore \<Rightarrow> error + objectStore" where
  "createIndexes [] s = Inr s"
| "createIndexes (c # cs) s =
     (if key c then createIndexes cs s
      else (case createIndex (name c) (name c) (unique c) s of
              Inl e \<Rightarrow> Inl e
            | Inr s' \<Rightarrow> createIndexes cs s'))"

text \<open>
  \<^verbatim>\<open>tables.forEach\<close>: a table whose store is missing gets
  \<^verbatim>\<open>createObjectStore(table.name, { keyPath: "id" })\<close>, a call that is an
  \<^verbatim>\<open>InvalidStateError\<close> outside an upgrade, and its indexes.  The call names no
  \<^verbatim>\<open>autoIncrement\<close>, so the store gets no key generator.  A \<^verbatim>\<open>createIndex\<close> that throws
  (the declared tables have no two columns of one name) leaves the store without indexes
  to the abort of the upgrade.
\<close>

fun createTablesLoop :: "(string \<times> column list) list \<Rightarrow> state \<Rightarrow> (error + unit) \<times> state" where
  "createTablesLoop [] st = (Inr (), st)"
| "createTablesLoop ((n, columns) # ts) st =
     (if n \<in> set (map fst (objectStores (disk st))) then createTablesLoop ts st
      else if db st \<noteq> Some Upgrading then (Inl (DOMException ''InvalidStateError''), st)
      else (case createIndexes columns (createObjectStore n ''id'' False) of
              Inl e \<Rightarrow>
                (Inl e, st\<lparr>disk := (disk st)\<lparr>objectStores :=
                    insert_store n (createObjectStore n ''id'' False) (objectStores (disk st))\<rparr>\<rparr>)
            | Inr s \<Rightarrow>
                createTablesLoop ts
                  (logInfo ''TABLE_CREATED''
                    (st\<lparr>disk := (disk st)\<lparr>objectStores :=
                        insert_store n s (objectStores (disk st))\<rparr>\<rparr>))))"

definition createTables :: "state \<Rightarrow> (error + unit) \<times> state" where
  "createTables st =
     (if db st = None then (Inl (Error msg_non_initialisee), st)
      else (case db_transaction [''users'', ''non_conformites'', ''actions_correctives'']
                   Versionchange st of
              (Inl e, st1) \<Rightarrow> (Inl e, logError ''TABLES_CREATION_FAILED'' e st1)
            | (Inr tx, st1) \<Rightarrow>
                (case createTablesLoop tables st1 of
                   (Inl e, st2) \<Rightarrow> (Inl e, logError ''TABLES_CREATION_FAILED'' e st2)
                 | (Inr u, st2) \<Rightarrow> (Inr (), logInfo ''TABLES_INITIALIZATION_COMPLETE'' st2))))"

section \<open>initDatabase\<close>

text \<open>
  \<^verbatim>\<open>indexedDB.open(dbName, dbVersion)\<close> answers in one of three ways.  A stored version
  above the requested one fails the request (\<^verbatim>\<open>VersionError\<close>).  A stored version below it
  runs \<^verbatim>\<open>onupgradeneeded\<close> inside the upgrade; when the handler throws, the upgrade is
  aborted, the database is left as it was, the connection is closed and the request
  fails (\<^verbatim>\<open>AbortError\<close>); otherwise the new version is stored and \<^verbatim>\<open>onsuccess\<close> runs.  An
  equal version runs \<^verbatim>\<open>onsuccess\<close>.  After the promise resolves the method calls
  \<^verbatim>\<open>createTables\<close> again.
\<close>

definition after_open :: "state \<Rightarrow> (error + unit) \<times> state" where
  "after_open st =
     (case createTables st of
        (Inl e, st1) \<Rightarrow> (Inl e, logError ''DB_INITIALIZATION_FAILED'' e st1)
      | (Inr u, st1) \<Rightarrow> (Inr (), st1))"

definition open_failed :: "string \<Rightarrow> state \<Rightarrow> (error + unit) \<times> state" where
  "open_failed n st =
     (Inl (OpenError (DOMException n)),
      logError ''DB_INITIALIZATION_FAILED'' (OpenError (DOMException n))
        (logError ''DB_INIT_ERROR'' (OpenError (DOMException n)) st))"

definition initDatabase :: "state \<Rightarrow> (error + unit) \<times> state" where
  "initDatabase st =
     (if \<not> hasIndexedDB st
      then (Inl (Error msg_non_supporte),
            logError ''DB_INITIALIZATION_FAILED'' (Error msg_non_supporte) st)
      else
        (let st1 = st\<lparr>initializationPromise := True\<rparr> in
         if dbVersion st1 < version (disk st1) then open_failed ''VersionError'' st1
         else if version (disk st1) < dbVersion st1 then
           (case createTables (logInfo ''DB_UPGRADE_NEEDED'' (st1\<lparr>db := Some Upgrading\<rparr>)) of
              (Inl e, st2) \<Rightarrow>
                open_failed ''AbortError'' (st2\<lparr>db := Some Closed, disk := disk st1\<rparr>)
            | (Inr u, st2) \<Rightarrow>
                after_open
                  (logInfo ''DB_INIT_SUCCESS''
                    (st2\<lparr>db := Some Live, disk := (disk st2)\<lparr>version := dbVersion st2\<rparr>\<rparr>)))
         else after_open (logInfo ''DB_INIT_SUCCESS'' (st1\<lparr>db := Some Live\<rparr>))))"

text \<open>The constructor: the fields, then \<^verbatim>\<open>initDatabase\<close>, whose promise nobody awaits.
  \<open>new_fields\<close> is the object between the two, with the browser it runs in.\<close>

definition new_fields :: "bool \<Rightarrow> (string \<Rightarrow> bool) \<Rightarrow> database \<Rightarrow> state" where
  "new_fields idb dp d =
     \<lparr>db = None, dbVersion = 1, dbName = ''QTrackDB'', initializationPromise = False,
      console = [], hasIndexedDB = idb, dateParse = dp, disk = d, opened = []\<rparr>"

definition constructor :: "bool \<Rightarrow> (string \<Rightarrow> bool) \<Rightarrow> database \<Rightarrow> state" where
  "constructor idb dp d = snd (initDatabase (new_fields idb dp d))"

section \<open>executeTransaction\<close>

definition executeTransaction ::
  "string list \<Rightarrow> txmode \<Rightarrow> (transaction \<Rightarrow> state \<Rightarrow> (error + 'a) \<times> state) \<Rightarrow> state
     \<Rightarrow> (error + 'a) \<times> state" where
  "executeTransaction storeNames mode operation st =
     (if db st = None then (Inl (Error msg_non_initialisee), st)
      else
        (case (if \<not> initializationPromise st then initDatabase st else (Inr (), st)) of
           (Inl e, st1) \<Rightarrow> (Inl e, st1)
         | (Inr u, st1) \<Rightarrow>
             (case db_transaction storeNames mode st1 of
                (Inl e, st2) \<Rightarrow> (Inl e, logError ''TRANSACTION_FAILED'' e st2)
              | (Inr tx, st2) \<Rightarrow>
                  (case operation tx st2 of
                     (Inl e, st3) \<Rightarrow> (Inl e, logError ''TRANSACTION_FAILED'' e st3)
                   | (Inr r, st3) \<Rightarrow> (Inr r, st3)))))"

section \<open>The CRUD methods\<close>

definition user_schema :: "column list" where
  "user_schema =
    [(col ''username'')\<lparr>required := True, validation := Some ''string''\<rparr>,
     (col ''password'')\<lparr>required := True, validation := Some ''string''\<rparr>,
     (col ''role'')\<lparr>required := False, validation := Some ''string''\<rparr>,
     (col ''email'')\<lparr>required := False, validation := Some ''email''\<rparr>]"

definition nc_schema :: "column list" where
  "nc_schema =
    [(col ''type_defaut'')\<lparr>required := True, validation := Some ''string''\<rparr>,
     (col ''poste'')\<lparr>required := True, validation := Some ''string''\<rparr>,
     (col ''gravite'')\<lparr>required := True, validation := Some ''enum''\<rparr>,
     (col ''description'')\<lparr>required := True, validation := Some ''string''\<rparr>,
     (col ''id_declarant'')\<lparr>required := True, validation := Some ''number''\<rparr>]"

definition action_schema :: "column list" where
  "action_schema =
    [(col ''description'')\<lparr>required := True, validation := Some ''string''\<rparr>,
     (col ''responsable'')\<lparr>required := True, validation := Some ''string''\<rparr>,
     (col ''delai'')\<lparr>required := True, validation := Some ''number''\<rparr>,
     (col ''id_nc'')\<lparr>required := True, validation := Some ''number''\<rparr>]"

text \<open>
  \<^verbatim>\<open>addUser\<close> assigns to \<^verbatim>\<open>user.password\<close>, so the caller's object is part of the result:
  the promise's outcome, the object after the call, the state after the call.
\<close>

definition addUser :: "obj \<Rightarrow> state \<Rightarrow> (error + jsval) \<times> obj \<times> state" where
  "addUser user st =
     (case validateData (dateParse st) user user_schema of
        Inl e \<Rightarrow> (Inl e, user, logError ''USER_ADD_FAILED'' e st)
      | Inr u \<Rightarrow>
          (let user1 = (if truthy (get_prop user ''password'')
                        then set_prop ''password''
                               (JStr (hashPassword (get_prop user ''password''))) user
                        else user)
           in case executeTransaction [''users''] Readwrite (request_add ''users'' user1) st of
                (Inl e, st1) \<Rightarrow> (Inl e, user1, logError ''USER_ADD_FAILED'' e st1)
              | (Inr k, st1) \<Rightarrow> (Inr k, user1, st1)))"

definition getUser :: "jsval \<Rightarrow> state \<Rightarrow> (error + obj option) \<times> state" where
  "getUser username st =
     executeTransaction [''users''] Readonly
       (\<lambda>tx st1.
          case tx_objectStore tx ''users'' st1 of
            Inl e \<Rightarrow> (Inl e, st1)
          | Inr s \<Rightarrow>
              (case store_index s ''username'' of
                 Inl e \<Rightarrow> (Inl e, st1)
               | Inr ix \<Rightarrow>
                   (case index_get s ix username of
                      Inl e \<Rightarrow> (Inl e, st1)
                    | Inr r \<Rightarrow> (Inr r, st1))))
       st"

definition addNonConformite :: "obj \<Rightarrow> state \<Rightarrow> (error + jsval) \<times> state" where
  "addNonConformite nc st =
     (case validateData (dateParse st) nc nc_schema of
        Inl e \<Rightarrow> (Inl e, logError ''NC_ADD_FAILED'' e st)
      | Inr u \<Rightarrow>
          (case executeTransaction [''non_conformites''] Readwrite
                  (request_add ''non_conformites'' nc) st of
             (Inl e, st1) \<Rightarrow> (Inl e, logError ''NC_ADD_FAILED'' e st1)
           | (Inr k, st1) \<Rightarrow> (Inr k, st1)))"

definition getNonConformites :: "state \<Rightarrow> (error + obj list) \<times> state" where
  "getNonConformites st =
     executeTransaction [''non_conformites''] Readonly
       (\<lambda>tx st1.
          case tx_objectStore tx ''non_conformites'' st1 of
            Inl e \<Rightarrow> (Inl e, st1)
          | Inr s \<Rightarrow> (Inr (store_getAll s), st1))
       st"

definition addActionCorrective :: "obj \<Rightarrow> state \<Rightarrow> (error + jsval) \<times> state" where
  "addActionCorrective action st =
     (case validateData (dateParse st) action action_schema of
        Inl e \<Rightarrow> (Inl e, logError ''ACTION_ADD_FAILED'' e st)
      | Inr u \<Rightarrow>
          (case executeTransaction [''actions_correctives''] Readwrite
                  (request_add ''actions_correctives'' action) st of
             (Inl e, st1) \<Rightarrow> (Inl e, logError ''ACTION_ADD_FAILED'' e st1)
           | (Inr k, st1) \<Rightarrow> (Inr k, st1)))"

section \<open>getDatabaseStatus\<close>

text \<open>The object literal the method returns: its property names with their values.\<close>

datatype status_value = SBool bool | SStr string | SNum nat | SList "string list"

definition getDatabaseStatus :: "state \<Rightarrow> (string \<times> status_value) list" where
  "getDatabaseStatus st =
     [(''initialized'', SBool (db st \<noteq> None)),
      (''dbName'', SStr (dbName st)),
      (''version'', SNum (dbVersion st)),
      (''storeNames'',
         SList (if db st \<noteq> None then map fst (objectStores (disk st)) else []))]"

section \<open>Browsers and records of the examples\<close>

text \<open>
  \<open>declared_stores\<close> are the object stores the loop of \<^verbatim>\<open>createTables\<close> builds in an empty
  database under upgrade.  \<open>ready\<close> is the manager constructed in a browser whose
  \<^verbatim>\<open>QTrackDB\<close>, version 1, holds these stores; \<open>pending\<close> is the same manager before its
  open request has answered.
\<close>

definition no_date :: "string \<Rightarrow> bool" where
  "no_date s = False"

definition declared_stores :: "(string \<times> objectStore) list" where
  "declared_stores =
     objectStores (disk (snd (createTablesLoop tables
       ((new_fields True no_date \<lparr>version = 0, objectStores = []\<rparr>)\<lparr>db := Some Upgrading\<rparr>))))"

definition pending :: state where
  "pending = new_fields True no_date \<lparr>version = 1, objectStores = declared_stores\<rparr>"

definition ready :: state where
  "ready = constructor True no_date \<lparr>version = 1, objectStores = declared_stores\<rparr>"

definition alice :: obj where
  "alice = [(''username'', JStr ''alice''), (''password'', JStr ''secret'')]"

definition bob :: obj where
  "bob = [(''username'', JStr ''bob''), (''password'', JStr ''hunter2'')]"

definition scenario_A :: obj where
  "scenario_A = [(''type_defaut'', JStr ''rayure''), (''poste'', JStr ''P3''),
                 (''gravite'', JStr ''Mineure''), (''description'', JStr ''surface''),
                 (''id_declarant'', JNum 7)]"

definition scenario_B :: obj where
  "scenario_B = [(''poste'', JStr ''P3'')]"

definition scenario_D :: obj where
  "scenario_D = [(''poste'', JStr ''P3''), (''gravite'', JStr ''Catastrophique'')]"

definition email_column :: column where
  "email_column = (col ''email'')\<lparr>required := False, validation := Some ''email''\<rparr>"

text \<open>
  The shape of an email as the specification words it: at least one \<^verbatim>\<open>@\<close>, at least one
  \<^verbatim>\<open>.\<close> after it, no whitespace.  It is compared with \<open>emailRegex\<close> below.
\<close>

definition spec_email_shape :: "string \<Rightarrow> bool" where
  "spec_email_shape s =
     (CHR ''@'' \<in> set s \<and> CHR ''.'' \<in> set (dropWhile (\<lambda>c. c \<noteq> CHR ''@'') s) \<and>
      \<not> list_ex is_space s)"

text \<open>The property names of the status record as the specification lists them.\<close>

definition spec_status_fields :: "string list" where
  "spec_status_fields = [''initialized'', ''storeName'', ''version'', ''tableNames'']"

section \<open>The email expression matches one shape\<close>

lemma rmatch_once:
  "rmatch ((a, False) # r) s \<longleftrightarrow> (\<exists>c v. s = c # v \<and> atom_ok a c \<and> rmatch r v)"
  by (cases s) auto

lemma rmatch_many:
  "rmatch ((a, True) # r) s \<longleftrightarrow>
     (\<exists>u v. s = u @ v \<and> u \<noteq> [] \<and> list_all (atom_ok a) u \<and> rmatch r v)"
proof (induction s)
  case Nil
  then show ?case by simp
next
  case (Cons c cs)
  show ?case
  proof
    assume "rmatch ((a, True) # r) (c # cs)"
    then have ok: "atom_ok a c" and alt: "rmatch ((a, True) # r) cs \<or> rmatch r cs"
      by auto
    from alt show "\<exists>u v. c # cs = u @ v \<and> u \<noteq> [] \<and> list_all (atom_ok a) u \<and> rmatch r v"
    proof
      assume "rmatch ((a, True) # r) cs"
      then obtain u v where "cs = u @ v" "u \<noteq> []" "list_all (atom_ok a) u" "rmatch r v"
        using Cons.IH by blast
      then have "c # cs = (c # u) @ v \<and> c # u \<noteq> [] \<and> list_all (atom_ok a) (c # u) \<and> rmatch r v"
        using ok by simp
      then show ?thesis by blast
    next
      assume "rmatch r cs"
      then have "c # cs = [c] @ cs \<and> [c] \<noteq> [] \<and> list_all (atom_ok a) [c] \<and> rmatch r cs"
        using ok by simp
      then show ?thesis by blast
    qed
  next
    assume "\<exists>u v. c # cs = u @ v \<and> u \<noteq> [] \<and> list_all (atom_ok a) u \<and> rmatch r v"
    then obtain u v where uv: "c # cs = u @ v" "u \<noteq> []" "list_all (atom_ok a) u" "rmatch r v"
      by blast
    then obtain u' where u: "u = c # u'" by (cases u) auto
    with uv have cs: "cs = u' @ v" and ok: "atom_ok a c" and all: "list_all (atom_ok a) u'"
      by auto
    show "rmatch ((a, True) # r) (c # cs)"
    proof (cases "u' = []")
      case True
      with cs uv ok show ?thesis by simp
    next
      case False
      with cs all uv(4) have "rmatch ((a, True) # r) cs"
        using Cons.IH by blast
      with ok show ?thesis by simp
    qed
  qed
qed

lemma rmatch_last: "rmatch [(a, True)] s \<longleftrightarrow> s \<noteq> [] \<and> list_all (atom_ok a) s"
  by (auto simp: rmatch_many)

lemma emailRegex_shape:
  "rmatch emailRegex s \<longleftrightarrow>
     (\<exists>l d t. s = l @ ''@'' @ d @ ''.'' @ t \<and> l \<noteq> [] \<and> d \<noteq> [] \<and> t \<noteq> [] \<and>
        list_all (atom_ok NotSpaceAt) l \<and> list_all (atom_ok NotSpaceAt) d \<and>
        list_all (atom_ok NotSpaceAt) t)"
  unfolding emailRegex_def
  apply (simp only: rmatch_many rmatch_once rmatch_last atom_ok.simps(1))
  apply (rule iffI)
   apply (elim exE conjE)
   apply simp
   apply blast
  apply (elim exE conjE)
  apply simp
  apply blast
  done

text \<open>Whatever the expression matches has the shape the specification words.\<close>

lemma regex_within_spec_shape:
  assumes "rmatch emailRegex s"
  shows "spec_email_shape s"
proof -
  from assms obtain l d t where s: "s = l @ ''@'' @ d @ ''.'' @ t"
    and ok: "list_all (atom_ok NotSpaceAt) l" "list_all (atom_ok NotSpaceAt) d"
      "list_all (atom_ok NotSpaceAt) t"
    unfolding emailRegex_shape by blast
  from ok(1) have "\<And>x. x \<in> set l \<Longrightarrow> x \<noteq> CHR ''@''"
    by (auto simp: list_all_iff)
  then have "dropWhile (\<lambda>c. c \<noteq> CHR ''@'') s = ''@'' @ d @ ''.'' @ t"
    unfolding s by (simp add: dropWhile_append2)
  moreover have "\<not> list_ex is_space s"
    using ok unfolding s by (auto simp: list_all_iff list_ex_iff is_space_def)
  ultimately show ?thesis
    unfolding spec_email_shape_def using s by simp
qed

section \<open>The digest has 32 bytes\<close>

lemma list8: "length v = 8 \<Longrightarrow> \<exists>a b c d e f g h. v = [a, b, c, d, e, f, g, h]"
  by (simp add: eval_nat_numeral length_Suc_conv) blast

lemma length_round256: "length v = 8 \<Longrightarrow> length (round256 v kw) = 8"
proof -
  assume "length v = 8"
  then obtain a b c d e f g h where "v = [a, b, c, d, e, f, g, h]"
    using list8 by blast
  then show ?thesis by (cases kw) (simp add: Let_def)
qed

lemma length_rounds: "length v = 8 \<Longrightarrow> length (foldl round256 v zs) = 8"
  by (induction zs arbitrary: v) (simp_all add: length_round256)

lemma length_compress: "length H = 8 \<Longrightarrow> length (compress H b) = 8"
  by (simp add: compress_def length_rounds)

lemma length_blocks: "length H = 8 \<Longrightarrow> length (foldl compress H bs) = 8"
  by (induction bs arbitrary: H) (simp_all add: length_compress)

lemma length_concat_const:
  "(\<And>x. x \<in> set xs \<Longrightarrow> length (f x) = n) \<Longrightarrow> length (concat (map f xs)) = n * length xs"
  by (induction xs) simp_all

lemma length_sha256: "length (sha256 m) = 32"
proof -
  have "length (foldl compress H256 (blocks64 (sha_pad m))) = 8"
    by (rule length_blocks) (simp add: H256_def)
  then show ?thesis
    by (simp add: sha256_def length_concat_const [where n = 4] be32_bytes_def)
qed

lemma length_hashPassword: "length (hashPassword p) = 64"
  by (simp add: hashPassword_def length_concat_const [where n = 2] hex2_def length_sha256)

lemma hex_digit_in: "d < 16 \<Longrightarrow> hex_digit d \<in> set hex_chars"
  unfolding hex_digit_def by (rule nth_mem) (simp add: hex_chars_def)

lemma hex2_in: "set (hex2 b) \<subseteq> set hex_chars"
proof -
  have "unat b < 256" using unsigned_less [of b] by simp
  then have "unat b div 16 < 16" by simp
  moreover have "unat b mod 16 < 16" by simp
  ultimately show ?thesis
    by (simp add: hex2_def hex_digit_in)
qed

lemma hashPassword_hex: "set (hashPassword p) \<subseteq> set hex_chars"
  unfolding hashPassword_def using hex2_in by auto

section \<open>The browsers of the examples\<close>

lemma declared_stores_eq:
  "declared_stores =
    [(''actions_correctives'',
      \<lparr>os_keyPath = ''id'', os_generator = None, os_records = [],
       os_indexes =
        [\<lparr>ix_name = ''description'', ix_keyPath = ''description'', ix_unique = False\<rparr>,
         \<lparr>ix_name = ''responsable'', ix_keyPath = ''responsable'', ix_unique = False\<rparr>,
         \<lparr>ix_name = ''delai'', ix_keyPath = ''delai'', ix_unique = False\<rparr>,
         \<lparr>ix_name = ''statut'', ix_keyPath = ''statut'', ix_unique = False\<rparr>,
         \<lparr>ix_name = ''id_nc'', ix_keyPath = ''id_nc'', ix_unique = False\<rparr>]\<rparr>),
     (''non_conformites'',
      \<lparr>os_keyPath = ''id'', os_generator = None, os_records = [],
       os_indexes =
        [\<lparr>ix_name = ''type_defaut'', ix_keyPath = ''type_defaut'', ix_unique = False\<rparr>,
         \<lparr>ix_name = ''poste'', ix_keyPath = ''poste'', ix_unique = False\<rparr>,
         \<lparr>ix_name = ''gravite'', ix_keyPath = ''gravite'', ix_unique = False\<rparr>,
         \<lparr>ix_name = ''description'', ix_keyPath = ''description'', ix_unique = False\<rparr>,
         \<lparr>ix_name = ''statut'', ix_keyPath = ''statut'', ix_unique = False\<rparr>,
         \<lparr>ix_name = ''date_creation'', ix_keyPath = ''date_creation'', ix_unique = False\<rparr>,
         \<lparr>ix_name = ''id_declarant'', ix_keyPath = ''id_declarant'', ix_unique = False\<rparr>]\<rparr>),
     (''users'',
      \<lparr>os_keyPath = ''id'', os_generator = None, os_records = [],
       os_indexes =
        [\<lparr>ix_name = ''username'', ix_keyPath = ''username'', ix_unique = True\<rparr>,
         \<lparr>ix_name = ''password'', ix_keyPath = ''password'', ix_unique = False\<rparr>,
         \<lparr>ix_name = ''role'', ix_keyPath = ''role'', ix_unique = False\<rparr>,
         \<lparr>ix_name = ''email'', ix_keyPath = ''email'', ix_unique = False\<rparr>]\<rparr>)]"
  by (simp add: declared_stores_def tables_def new_fields_def col_def createObjectStore_def
      createIndex_def logInfo_def)

lemma ready_eq:
  "ready =
     \<lparr>db = Some Live, dbVersion = 1, dbName = ''QTrackDB'', initializationPromise = True,
      console = [INFO ''DB_INIT_SUCCESS'', ERROR ''TABLES_CREATION_FAILED'' TypeError,
                 ERROR ''DB_INITIALIZATION_FAILED'' TypeError],
      hasIndexedDB = True, dateParse = no_date,
      disk = \<lparr>version = 1, objectStores = declared_stores\<rparr>, opened = []\<rparr>"
  by (simp add: ready_def constructor_def new_fields_def initDatabase_def after_open_def
      createTables_def db_transaction_def logInfo_def logError_def declared_stores_eq)

section \<open>The email check (C7)\<close>

lemma atom_ok_all: "list_all (atom_ok NotSpaceAt) l \<and> list_all (atom_ok NotSpaceAt) d \<and> list_all (atom_ok NotSpaceAt) t
  \<longleftrightarrow> list_all (\<lambda>ch. \<not> is_space ch \<and> ch \<noteq> CHR ''@'') (l @ d @ t)"
  by (auto simp: list_all_iff)

lemma validateColumn_email:
  assumes "validation c = Some ''email''" "get_prop data (name c) = v" "v \<noteq> JUndefined" "v \<noteq> JNull"
  shows "validateColumn dp data c [] = Inr [] \<longleftrightarrow> regex_test emailRegex v"
proof (cases "regex_test emailRegex v")
  case True
  then have "ToString v \<noteq> []"
    by (auto simp: regex_test_def emailRegex_def)
  then have "v \<noteq> JStr []" by auto
  with True assms show ?thesis by (simp add: validateColumn_def)
next
  case False
  with assms show ?thesis by (simp add: validateColumn_def)
qed

text \<open>
  C7, amended.  A present value passes the email check of \<^verbatim>\<open>validateData\<close> exactly when its
  string form is \<^verbatim>\<open>local@domain.tld\<close> with the three parts non-empty and free of whitespace
  and of \<^verbatim>\<open>@\<close>: exactly one \<^verbatim>\<open>@\<close>, something before it, and after it a dot with
  something on both sides.
\<close>

theorem email_admitted_iff_regex_shape:
  assumes "validation c = Some ''email''" and "get_prop data (name c) = v"
    and "v \<noteq> JUndefined" and "v \<noteq> JNull"
  shows "validateColumn dp data c [] = Inr [] \<longleftrightarrow>
     (\<exists>l d t. ToString v = l @ ''@'' @ d @ ''.'' @ t \<and> l \<noteq> [] \<and> d \<noteq> [] \<and> t \<noteq> [] \<and>
        list_all (\<lambda>ch. \<not> is_space ch \<and> ch \<noteq> CHR ''@'') (l @ d @ t))"
  unfolding validateColumn_email [OF assms] regex_test_def emailRegex_shape atom_ok_all [symmetric]
  by blast

theorem email_admitted_witness:
  "validateColumn no_date [(''email'', JStr ''a@b.c'')] email_column [] = Inr []"
proof -
  have shape: "\<exists>l d t. ToString (JStr ''a@b.c'') = l @ ''@'' @ d @ ''.'' @ t \<and> l \<noteq> [] \<and> d \<noteq> [] \<and> t \<noteq> [] \<and>
        list_all (\<lambda>ch. \<not> is_space ch \<and> ch \<noteq> CHR ''@'') (l @ d @ t)"
    by (rule exI [of _ "''a''"], rule exI [of _ "''b''"], rule exI [of _ "''c''"])
       (simp add: is_space_def)
  have "validation email_column = Some ''email''"
    and "get_prop [(''email'', JStr ''a@b.c'')] (name email_column) = JStr ''a@b.c''"
    by (simp_all add: email_column_def col_def get_prop_def)
  from email_admitted_iff_regex_shape [OF this, of no_date] shape show ?thesis by simp
qed

text \<open>
  C7 as stated fails: \<^verbatim>\<open>a@@b.c\<close> has an \<^verbatim>\<open>@\<close>, a dot after it and no whitespace, and the
  check rejects it.
\<close>

theorem email_spec_shape_rejected:
  "spec_email_shape ''a@@b.c'' \<and>
   validateColumn no_date [(''email'', JStr ''a@@b.c'')] email_column [] = Inr [msg_email ''email'']"
  by (simp add: spec_email_shape_def is_space_def validateColumn_def email_column_def col_def
      get_prop_def regex_test_def emailRegex_def)

section \<open>An operation without a handle (C3)\<close>

text \<open>
  C3, amended.  While \<^verbatim>\<open>this.db\<close> is \<^verbatim>\<open>null\<close>, \<^verbatim>\<open>executeTransaction\<close> rejects with the
  error \<open>msg_non_initialisee\<close> and leaves the manager and the browser as they were: nothing
  is opened, nothing is logged, the operation does not run.  So do the two reading methods.
\<close>

theorem executeTransaction_without_handle:
  assumes "db st = None"
  shows "executeTransaction storeNames mode operation st = (Inl (Error msg_non_initialisee), st) \<and>
         getUser username st = (Inl (Error msg_non_initialisee), st) \<and>
         getNonConformites st = (Inl (Error msg_non_initialisee), st)"
  using assms by (simp add: executeTransaction_def getUser_def getNonConformites_def)

lemma pending_eq:
  "pending = \<lparr>db = None, dbVersion = 1, dbName = ''QTrackDB'', initializationPromise = False,
      console = [], hasIndexedDB = True, dateParse = no_date,
      disk = \<lparr>version = 1, objectStores = declared_stores\<rparr>, opened = []\<rparr>"
  by (simp add: pending_def new_fields_def)

theorem executeTransaction_without_handle_witness:
  "db pending = None \<and> getUser (JStr ''alice'') pending = (Inl (Error msg_non_initialisee), pending)"
proof -
  have "db pending = None" by (simp add: pending_eq)
  from executeTransaction_without_handle [OF this, THEN conjunct2, THEN conjunct1] this
  show ?thesis by simp
qed

lemma initDatabase_pending: "snd (initDatabase pending) = ready"
  by (simp add: ready_def constructor_def pending_def)

lemma users_store:
  "map_of declared_stores ''users'' =
     Some \<lparr>os_keyPath = ''id'', os_generator = None, os_records = [],
       os_indexes =
        [\<lparr>ix_name = ''username'', ix_keyPath = ''username'', ix_unique = True\<rparr>,
         \<lparr>ix_name = ''password'', ix_keyPath = ''password'', ix_unique = False\<rparr>,
         \<lparr>ix_name = ''role'', ix_keyPath = ''role'', ix_unique = False\<rparr>,
         \<lparr>ix_name = ''email'', ix_keyPath = ''email'', ix_unique = False\<rparr>]\<rparr>"
  by (simp add: declared_stores_eq)

lemma store_names: "map fst declared_stores = [''actions_correctives'', ''non_conformites'', ''users'']"
  by (simp add: declared_stores_eq)

text \<open>
  C3 as stated fails: before the open request has answered, \<^verbatim>\<open>getUser\<close> rejects with the
  bare error and changes nothing, although opening first would have let it resolve.
\<close>

theorem no_implicit_open:
  "db pending = None \<and>
   getUser (JStr ''alice'') pending = (Inl (Error msg_non_initialisee), pending) \<and>
   db (snd (initDatabase pending)) = Some Live \<and>
   fst (getUser (JStr ''alice'') (snd (initDatabase pending))) = Inr None"
  unfolding initDatabase_pending
  apply (simp add: pending_eq getUser_def executeTransaction_def)
  apply (simp add: ready_eq db_transaction_def store_names tx_objectStore_def users_store
      store_index_def index_get_def)
  done

section \<open>The status record (C8)\<close>

text \<open>
  C8, amended.  The status record has exactly the properties \<^verbatim>\<open>initialized\<close>, \<^verbatim>\<open>dbName\<close>,
  \<^verbatim>\<open>version\<close>, \<^verbatim>\<open>storeNames\<close>, in this order; \<^verbatim>\<open>initialized\<close> tells whether \<^verbatim>\<open>this.db\<close> is
  set, and \<^verbatim>\<open>storeNames\<close> lists the object stores of the database when it is set and is
  empty when it is not.
\<close>

theorem status_fields:
  "map fst (getDatabaseStatus st) = [''initialized'', ''dbName'', ''version'', ''storeNames''] \<and>
   map_of (getDatabaseStatus st) ''initialized'' = Some (SBool (db st \<noteq> None)) \<and>
   map_of (getDatabaseStatus st) ''dbName'' = Some (SStr (dbName st)) \<and>
   map_of (getDatabaseStatus st) ''version'' = Some (SNum (dbVersion st)) \<and>
   map_of (getDatabaseStatus st) ''storeNames'' =
     Some (SList (if db st = None then [] else map fst (objectStores (disk st))))"
  by (simp add: getDatabaseStatus_def)

lemma fresh_eq:
  "constructor True no_date \<lparr>version = 0, objectStores = []\<rparr> =
     \<lparr>db = Some Closed, dbVersion = 1, dbName = ''QTrackDB'', initializationPromise = True,
      console = [INFO ''DB_UPGRADE_NEEDED'',
                 ERROR ''TABLES_CREATION_FAILED'' (DOMException ''InvalidStateError''),
                 ERROR ''DB_INIT_ERROR'' (OpenError (DOMException ''AbortError'')),
                 ERROR ''DB_INITIALIZATION_FAILED'' (OpenError (DOMException ''AbortError''))],
      hasIndexedDB = True, dateParse = no_date,
      disk = \<lparr>version = 0, objectStores = []\<rparr>, opened = []\<rparr>"
  by (simp add: constructor_def new_fields_def initDatabase_def createTables_def
      db_transaction_def logInfo_def logError_def open_failed_def)

lemma names_differ: "set (map fst (getDatabaseStatus ready)) \<noteq> set spec_status_fields"
proof
  assume "set (map fst (getDatabaseStatus ready)) = set spec_status_fields"
  moreover have "''dbName'' \<in> set (map fst (getDatabaseStatus ready))"
    by (simp add: getDatabaseStatus_def)
  ultimately have "''dbName'' \<in> set spec_status_fields" by simp
  then show False by (simp add: spec_status_fields_def)
qed

text \<open>
  C8 as stated fails: the record has no property \<^verbatim>\<open>storeName\<close> or \<^verbatim>\<open>tableNames\<close>; and after an
  upgrade that failed the connection is closed while \<^verbatim>\<open>initialized\<close> is true.
\<close>

theorem status_fields_differ:
  "set (map fst (getDatabaseStatus ready)) \<noteq> set spec_status_fields \<and>
   db (constructor True no_date \<lparr>version = 0, objectStores = []\<rparr>) = Some Closed \<and>
   map_of (getDatabaseStatus (constructor True no_date \<lparr>version = 0, objectStores = []\<rparr>))
     ''initialized'' = Some (SBool True)"
  using names_differ by (simp add: fresh_eq getDatabaseStatus_def)

section \<open>What validateData collects\<close>

lemma validateColumn_append:
  "validateColumn dp data c errors =
     (case validateColumn dp data c [] of Inl e \<Rightarrow> Inl e | Inr es \<Rightarrow> Inr (errors @ es))"
  by (simp add: validateColumn_def Let_def split: option.splits)

lemma validateLoop_append:
  "validateLoop dp data cs errors =
     (case validateLoop dp data cs [] of Inl e \<Rightarrow> Inl e | Inr es \<Rightarrow> Inr (errors @ es))"
proof (induction cs arbitrary: errors)
  case Nil
  then show ?case by simp
next
  case (Cons c cs)
  show ?case
  proof (cases "validateColumn dp data c []")
    case (Inl e)
    then show ?thesis by (simp add: validateColumn_append [of dp data c errors])
  next
    case (Inr es)
    then have "validateLoop dp data (c # cs) errors = validateLoop dp data cs (errors @ es)"
      by (simp add: validateColumn_append [of dp data c errors])
    moreover have "validateLoop dp data (c # cs) [] = validateLoop dp data cs es"
      using Inr by simp
    ultimately show ?thesis
      using Cons.IH [of "errors @ es"] Cons.IH [of es]
      by (simp split: sum.splits)
  qed
qed

text \<open>The loop collects the errors of every column, in the order of the schema, unless a
  column throws.\<close>

lemma validateLoop_Cons:
  "validateLoop dp data (c # cs) [] =
     (case validateColumn dp data c [] of
        Inl e \<Rightarrow> Inl e
      | Inr es \<Rightarrow> (case validateLoop dp data cs [] of Inl e \<Rightarrow> Inl e | Inr es' \<Rightarrow> Inr (es @ es')))"
proof (cases "validateColumn dp data c []")
  case (Inl e)
  then show ?thesis by simp
next
  case (Inr es)
  then show ?thesis using validateLoop_append [of dp data cs es] by simp
qed

lemma validateLoop_collects:
  assumes "\<forall>c \<in> set cs. \<exists>es. validateColumn dp data c [] = Inr es"
  shows "validateLoop dp data cs [] =
           Inr (concat (map (\<lambda>c. projr (validateColumn dp data c [])) cs))"
  using assms
proof (induction cs)
  case Nil
  then show ?case by simp
next
  case (Cons c cs)
  then obtain es where "validateColumn dp data c [] = Inr es" by auto
  with Cons show ?case by (simp add: validateLoop_Cons del: validateLoop.simps)
qed

lemma validateData_ok:
  "validateData dp data schema = Inr () \<longleftrightarrow> validateLoop dp data schema [] = Inr []"
  by (simp add: validateData_def split: sum.splits)

lemma validateLoop_ok_Cons:
  "validateLoop dp data (c # cs) [] = Inr [] \<longleftrightarrow>
     validateColumn dp data c [] = Inr [] \<and> validateLoop dp data cs [] = Inr []"
  by (auto simp: validateLoop_Cons split: sum.splits simp del: validateLoop.simps)

lemma required_string_ok:
  assumes "validateColumn dp data c [] = Inr []" "required c" "validation c = Some ''string''"
  shows "\<exists>p. get_prop data (name c) = JStr p \<and> p \<noteq> []"
proof (cases "get_prop data (name c)")
  case (JStr p)
  with assms show ?thesis by (auto simp: validateColumn_def split: if_splits)
qed (use assms in \<open>auto simp: validateColumn_def split: if_splits\<close>)

lemma valid_user_password:
  assumes "validateData dp user user_schema = Inr ()"
  shows "\<exists>p. get_prop user ''password'' = JStr p \<and> p \<noteq> []"
proof -
  from assms have "validateColumn dp user
      ((col ''password'')\<lparr>required := True, validation := Some ''string''\<rparr>) [] = Inr []"
    by (simp add: validateData_ok user_schema_def validateLoop_ok_Cons del: validateLoop.simps)
  from required_string_ok [OF this] show ?thesis by (simp add: col_def)
qed

lemma get_set_prop: "get_prop (set_prop k v ob) k' = (if k' = k then v else get_prop ob k')"
  by (simp add: get_prop_def set_prop_def update_conv')

lemma get_prop_in: "get_prop ob k \<noteq> JUndefined \<Longrightarrow> k \<in> fst ` set ob"
  by (auto simp: get_prop_def split: option.splits dest!: map_of_SomeD intro: rev_image_eqI)

lemma names_set_prop: "get_prop ob k \<noteq> JUndefined \<Longrightarrow> map fst (set_prop k v ob) = map fst ob"
  using get_prop_in [of ob k] by (simp add: set_prop_def update_keys)

section \<open>No method reads the console\<close>

lemma quiet_console [simp]: "quiet (st\<lparr>console := c\<rparr>) = quiet st"
  by (simp add: quiet_def)

lemma quiet_log [simp]: "quiet (logError ev e st) = quiet st" "quiet (logInfo ev st) = quiet st"
  by (simp_all add: logError_def logInfo_def)

lemma quiet_fields:
  "quiet a = quiet b \<Longrightarrow>
     db a = db b \<and> dbVersion a = dbVersion b \<and> dbName a = dbName b \<and>
     initializationPromise a = initializationPromise b \<and> hasIndexedDB a = hasIndexedDB b \<and>
     dateParse a = dateParse b \<and> disk a = disk b \<and> opened a = opened b"
  by (cases a, cases b) (simp add: quiet_def)

lemma quiet_update:
  "quiet a = quiet b \<Longrightarrow> quiet (a\<lparr>db := x\<rparr>) = quiet (b\<lparr>db := x\<rparr>)"
  "quiet a = quiet b \<Longrightarrow> quiet (a\<lparr>disk := d\<rparr>) = quiet (b\<lparr>disk := d\<rparr>)"
  "quiet a = quiet b \<Longrightarrow> quiet (a\<lparr>opened := t\<rparr>) = quiet (b\<lparr>opened := t\<rparr>)"
  "quiet a = quiet b \<Longrightarrow>
     quiet (a\<lparr>initializationPromise := i\<rparr>) = quiet (b\<lparr>initializationPromise := i\<rparr>)"
  by (cases a, cases b, simp add: quiet_def)+

lemma db_transaction_quiet:
  assumes "quiet a = quiet b"
  shows "fst (db_transaction ns m a) = fst (db_transaction ns m b) \<and>
         quiet (snd (db_transaction ns m a)) = quiet (snd (db_transaction ns m b))"
  using quiet_fields [OF assms] quiet_update [OF assms] assms
  by (simp add: db_transaction_def split: option.splits connection.splits)


lemma createTablesLoop_quiet:
  "quiet a = quiet b \<Longrightarrow>
     fst (createTablesLoop ts a) = fst (createTablesLoop ts b) \<and>
     quiet (snd (createTablesLoop ts a)) = quiet (snd (createTablesLoop ts b))"
proof (induction ts arbitrary: a b)
  case Nil
  then show ?case by simp
next
  case (Cons t ts)
  obtain n columns where t: "t = (n, columns)" by (cases t)
  note f = quiet_fields [OF Cons.prems]
  show ?case
  proof (cases "n \<in> set (map fst (objectStores (disk a)))")
    case True
    with f t Cons.IH [OF Cons.prems] show ?thesis by simp
  next
    case absent: False
    show ?thesis
    proof (cases "db a = Some Upgrading")
      case False
      with absent f t Cons.prems show ?thesis by simp
    next
      case True
      show ?thesis
      proof (cases "createIndexes columns (createObjectStore n ''id'' False)")
        case (Inl e)
        with True absent f t quiet_update(2) [OF Cons.prems] show ?thesis by simp
      next
        case (Inr s)
        have "quiet (logInfo ''TABLE_CREATED''
                 (a\<lparr>disk := (disk a)\<lparr>objectStores := insert_store n s (objectStores (disk a))\<rparr>\<rparr>))
            = quiet (logInfo ''TABLE_CREATED''
                 (b\<lparr>disk := (disk a)\<lparr>objectStores := insert_store n s (objectStores (disk a))\<rparr>\<rparr>))"
          using quiet_update(2) [OF Cons.prems] by simp
        from Cons.IH [OF this] Inr True absent f t show ?thesis by simp
      qed
    qed
  qed
qed

lemma createTables_quiet:
  assumes "quiet a = quiet b"
  shows "fst (createTables a) = fst (createTables b) \<and>
         quiet (snd (createTables a)) = quiet (snd (createTables b))"
proof -
  note f = quiet_fields [OF assms]
  let ?ns = "[''users'', ''non_conformites'', ''actions_correctives'']"
  obtain ra sa where A: "db_transaction ?ns Versionchange a = (ra, sa)"
    by (cases "db_transaction ?ns Versionchange a")
  obtain rb sb where B: "db_transaction ?ns Versionchange b = (rb, sb)"
    by (cases "db_transaction ?ns Versionchange b")
  from db_transaction_quiet [OF assms, of ?ns Versionchange] A B
  have r: "ra = rb" and q: "quiet sa = quiet sb" by simp_all
  obtain ra' sa' where A': "createTablesLoop tables sa = (ra', sa')"
    by (cases "createTablesLoop tables sa")
  obtain rb' sb' where B': "createTablesLoop tables sb = (rb', sb')"
    by (cases "createTablesLoop tables sb")
  from createTablesLoop_quiet [OF q, of tables] A' B'
  have r': "ra' = rb'" and q': "quiet sa' = quiet sb'" by simp_all
  show ?thesis
    using f r q r' q' assms
    by (simp add: createTables_def A B A' B' split: sum.splits)
qed

lemma after_open_quiet:
  assumes "quiet a = quiet b"
  shows "fst (after_open a) = fst (after_open b) \<and>
         quiet (snd (after_open a)) = quiet (snd (after_open b))"
proof -
  obtain ra sa where A: "createTables a = (ra, sa)" by (cases "createTables a")
  obtain rb sb where B: "createTables b = (rb, sb)" by (cases "createTables b")
  from createTables_quiet [OF assms] A B have "ra = rb" "quiet sa = quiet sb" by simp_all
  then show ?thesis by (simp add: after_open_def A B split: sum.splits)
qed

lemma open_failed_quiet:
  assumes "quiet a = quiet b"
  shows "fst (open_failed n a) = fst (open_failed n b) \<and>
         quiet (snd (open_failed n a)) = quiet (snd (open_failed n b))"
  using assms by (simp add: open_failed_def)

lemma initDatabase_quiet:
  assumes "quiet a = quiet b"
  shows "fst (initDatabase a) = fst (initDatabase b) \<and>
         quiet (snd (initDatabase a)) = quiet (snd (initDatabase b))"
proof -
  note f = quiet_fields [OF assms]
  let ?a1 = "a\<lparr>initializationPromise := True\<rparr>"
  let ?b1 = "b\<lparr>initializationPromise := True\<rparr>"
  have q1: "quiet ?a1 = quiet ?b1" by (rule quiet_update(4) [OF assms])
  show ?thesis
  proof (cases "hasIndexedDB a")
    case False
    with f assms show ?thesis by (simp add: initDatabase_def)
  next
    case idb: True
    show ?thesis
    proof (cases "dbVersion a < version (disk a)")
      case True
      with idb f open_failed_quiet [OF q1, of "''VersionError''"] show ?thesis
        by (simp add: initDatabase_def Let_def)
    next
      case notabove: False
      show ?thesis
      proof (cases "version (disk a) < dbVersion a")
        case False
        have "quiet (logInfo ''DB_INIT_SUCCESS'' (?a1\<lparr>db := Some Live\<rparr>))
            = quiet (logInfo ''DB_INIT_SUCCESS'' (?b1\<lparr>db := Some Live\<rparr>))"
          using quiet_update(1) [OF q1] by simp
        from after_open_quiet [OF this] False notabove idb f show ?thesis
          by (simp add: initDatabase_def Let_def)
      next
        case True
        let ?au = "logInfo ''DB_UPGRADE_NEEDED'' (?a1\<lparr>db := Some Upgrading\<rparr>)"
        let ?bu = "logInfo ''DB_UPGRADE_NEEDED'' (?b1\<lparr>db := Some Upgrading\<rparr>)"
        have qu: "quiet ?au = quiet ?bu" using quiet_update(1) [OF q1] by simp
        obtain ra sa where A: "createTables ?au = (ra, sa)" by (cases "createTables ?au")
        obtain rb sb where B: "createTables ?bu = (rb, sb)" by (cases "createTables ?bu")
        from createTables_quiet [OF qu] A B
        have r: "ra = rb" and q: "quiet sa = quiet sb" by simp_all
        note g = quiet_fields [OF q]
        have eqa: "initDatabase a =
            (case ra of
               Inl e \<Rightarrow> open_failed ''AbortError'' (sa\<lparr>db := Some Closed, disk := disk a\<rparr>)
             | Inr u \<Rightarrow> after_open (logInfo ''DB_INIT_SUCCESS''
                  (sa\<lparr>db := Some Live, disk := (disk sa)\<lparr>version := dbVersion sa\<rparr>\<rparr>)))"
          using True notabove idb by (cases ra) (simp_all add: initDatabase_def Let_def A)
        have eqb: "initDatabase b =
            (case rb of
               Inl e \<Rightarrow> open_failed ''AbortError'' (sb\<lparr>db := Some Closed, disk := disk a\<rparr>)
             | Inr u \<Rightarrow> after_open (logInfo ''DB_INIT_SUCCESS''
                  (sb\<lparr>db := Some Live, disk := (disk sa)\<lparr>version := dbVersion sa\<rparr>\<rparr>)))"
        proof -
          have "version (disk b) < dbVersion b" "\<not> dbVersion b < version (disk b)" "hasIndexedDB b"
            using True notabove idb f by simp_all
          moreover have "disk b = disk a" "disk sb = disk sa" "dbVersion sb = dbVersion sa"
            using f g by simp_all
          ultimately show ?thesis
            by (cases rb) (simp_all add: initDatabase_def Let_def B)
        qed
        have ab: "quiet (sa\<lparr>db := Some Closed, disk := disk a\<rparr>)
                    = quiet (sb\<lparr>db := Some Closed, disk := disk a\<rparr>)"
          using quiet_update(2) [OF quiet_update(1) [OF q]] by simp
        have ok: "quiet (logInfo ''DB_INIT_SUCCESS''
                     (sa\<lparr>db := Some Live, disk := (disk sa)\<lparr>version := dbVersion sa\<rparr>\<rparr>))
                = quiet (logInfo ''DB_INIT_SUCCESS''
                     (sb\<lparr>db := Some Live, disk := (disk sa)\<lparr>version := dbVersion sa\<rparr>\<rparr>))"
          using quiet_update(2) [OF quiet_update(1) [OF q]] by simp
        show ?thesis
          unfolding eqa eqb r
          using open_failed_quiet [OF ab] after_open_quiet [OF ok]
          by (cases rb) simp_all
      qed
    qed
  qed
qed

lemma executeTransaction_quiet:
  assumes "quiet a = quiet b"
    and op: "\<And>tx x y. quiet x = quiet y \<Longrightarrow>
               fst (operation tx x) = fst (operation tx y) \<and>
               quiet (snd (operation tx x)) = quiet (snd (operation tx y))"
  shows "fst (executeTransaction ns m operation a) = fst (executeTransaction ns m operation b) \<and>
         quiet (snd (executeTransaction ns m operation a))
           = quiet (snd (executeTransaction ns m operation b))"
proof -
  note f = quiet_fields [OF assms(1)]
  from f have dbeq: "db a = db b" by simp
  let ?i = "\<lambda>st. if \<not> initializationPromise st then initDatabase st else (Inr (), st)"
  obtain ra sa where A: "?i a = (ra, sa)" by (cases "?i a")
  obtain rb sb where B: "?i b = (rb, sb)" by (cases "?i b")
  have "fst (?i a) = fst (?i b) \<and> quiet (snd (?i a)) = quiet (snd (?i b))"
    using initDatabase_quiet [OF assms(1)] assms(1) f by simp
  with A B have r: "ra = rb" and q: "quiet sa = quiet sb" by simp_all
  obtain ta sa' where A': "db_transaction ns m sa = (ta, sa')" by (cases "db_transaction ns m sa")
  obtain tb sb' where B': "db_transaction ns m sb = (tb, sb')" by (cases "db_transaction ns m sb")
  from db_transaction_quiet [OF q, of ns m] A' B'
  have t: "ta = tb" and q': "quiet sa' = quiet sb'" by simp_all
  show ?thesis
  proof (cases "db b = None")
    case True
    with dbeq assms(1) show ?thesis by (simp add: executeTransaction_def)
  next
    case False
    with dbeq obtain c where ca: "db a = Some c" and cb: "db b = Some c" by auto
    have ea: "executeTransaction ns m operation a =
        (case rb of Inl e \<Rightarrow> (Inl e, sa)
         | Inr u \<Rightarrow> (case tb of
              Inl e \<Rightarrow> (Inl e, logError ''TRANSACTION_FAILED'' e sa')
            | Inr tx \<Rightarrow> (case operation tx sa' of
                 (Inl e, st3) \<Rightarrow> (Inl e, logError ''TRANSACTION_FAILED'' e st3)
               | (Inr r, st3) \<Rightarrow> (Inr r, st3))))"
      unfolding r [symmetric] t [symmetric]
      by (cases ra; cases ta) (simp_all add: executeTransaction_def A A' ca)
    have eb: "executeTransaction ns m operation b =
        (case rb of Inl e \<Rightarrow> (Inl e, sb)
         | Inr u \<Rightarrow> (case tb of
              Inl e \<Rightarrow> (Inl e, logError ''TRANSACTION_FAILED'' e sb')
            | Inr tx \<Rightarrow> (case operation tx sb' of
                 (Inl e, st3) \<Rightarrow> (Inl e, logError ''TRANSACTION_FAILED'' e st3)
               | (Inr r, st3) \<Rightarrow> (Inr r, st3))))"
      by (cases rb; cases tb) (simp_all add: executeTransaction_def B B' cb)
    show ?thesis
    proof (cases rb)
      case (Inl e)
      with q show ?thesis by (simp add: ea eb)
    next
      case (Inr u)
      show ?thesis
      proof (cases tb)
        case (Inl e)
        with Inr q' show ?thesis by (simp add: ea eb)
      next
        case inner: (Inr tx)
        obtain oa sa2 where A2: "operation tx sa' = (oa, sa2)" by (cases "operation tx sa'")
        obtain ob sb2 where B2: "operation tx sb' = (ob, sb2)" by (cases "operation tx sb'")
        from op [OF q', of tx] A2 B2 have "oa = ob" "quiet sa2 = quiet sb2" by simp_all
        with Inr inner A2 B2 show ?thesis
          by (cases ob) (simp_all add: ea eb)
      qed
    qed
  qed
qed

lemma tx_objectStore_quiet:
  "quiet a = quiet b \<Longrightarrow> tx_objectStore tx n a = tx_objectStore tx n b"
  using quiet_fields [of a b] by (simp add: tx_objectStore_def)

lemma getNonConformites_quiet:
  assumes "quiet a = quiet b"
  shows "fst (getNonConformites a) = fst (getNonConformites b)"
  unfolding getNonConformites_def
proof (rule executeTransaction_quiet [OF assms, THEN conjunct1])
  fix tx x y
  assume "quiet x = quiet y"
  from tx_objectStore_quiet [OF this, of tx "''non_conformites''"] this
  show "fst (case tx_objectStore tx ''non_conformites'' x of
               Inl e \<Rightarrow> (Inl e, x) | Inr s \<Rightarrow> (Inr (store_getAll s), x))
          = fst (case tx_objectStore tx ''non_conformites'' y of
               Inl e \<Rightarrow> (Inl e, y) | Inr s \<Rightarrow> (Inr (store_getAll s), y)) \<and>
        quiet (snd (case tx_objectStore tx ''non_conformites'' x of
               Inl e \<Rightarrow> (Inl e, x) | Inr s \<Rightarrow> (Inr (store_getAll s), x)))
          = quiet (snd (case tx_objectStore tx ''non_conformites'' y of
               Inl e \<Rightarrow> (Inl e, y) | Inr s \<Rightarrow> (Inr (store_getAll s), y)))"
    by (cases "tx_objectStore tx ''non_conformites'' y") simp_all
qed

lemma getUser_quiet:
  assumes "quiet a = quiet b"
  shows "fst (getUser u a) = fst (getUser u b)"
  unfolding getUser_def
proof (rule executeTransaction_quiet [OF assms, THEN conjunct1])
  fix tx x y
  let ?op = "\<lambda>st1. case tx_objectStore tx ''users'' st1 of
            Inl e \<Rightarrow> (Inl e, st1)
          | Inr s \<Rightarrow>
              (case store_index s ''username'' of
                 Inl e \<Rightarrow> (Inl e, st1)
               | Inr ix \<Rightarrow>
                   (case index_get s ix u of
                      Inl e \<Rightarrow> (Inl e, st1)
                    | Inr r \<Rightarrow> (Inr r, st1)))"
  assume "quiet x = quiet y"
  from tx_objectStore_quiet [OF this, of tx "''users''"] this
  show "fst (?op x) = fst (?op y) \<and> quiet (snd (?op x)) = quiet (snd (?op y))"
    by (simp split: sum.splits)
qed

section \<open>addUser writes the digest into the caller's object (C10)\<close>

lemma addUser_object:
  "fst (snd (addUser user st)) =
     (case validateData (dateParse st) user user_schema of
        Inl e \<Rightarrow> user
      | Inr u \<Rightarrow> if truthy (get_prop user ''password'')
                 then set_prop ''password'' (JStr (hashPassword (get_prop user ''password''))) user
                 else user)"
  by (simp add: addUser_def Let_def split: sum.splits prod.splits)

text \<open>
  C10.  When validation succeeds the password of the argument is a non-empty string, and after
  the call the caller's object is the argument with its \<^verbatim>\<open>password\<close> replaced by the
  digest, 64 hexadecimal digits: every other property reads as before and the property names
  and their order are the same, whether or not the store then takes the record.
\<close>

theorem addUser_overwrites_password:
  assumes "validateData (dateParse st) user user_schema = Inr ()"
  shows "\<exists>p. get_prop user ''password'' = JStr p \<and> p \<noteq> [] \<and>
           fst (snd (addUser user st)) = set_prop ''password'' (JStr (hashPassword (JStr p))) user \<and>
           get_prop (fst (snd (addUser user st))) ''password'' = JStr (hashPassword (JStr p)) \<and>
           length (hashPassword (JStr p)) = 64 \<and> set (hashPassword (JStr p)) \<subseteq> set hex_chars \<and>
           (\<forall>f. f \<noteq> ''password'' \<longrightarrow> get_prop (fst (snd (addUser user st))) f = get_prop user f) \<and>
           map fst (fst (snd (addUser user st))) = map fst user"
proof -
  from valid_user_password [OF assms] obtain p
    where p: "get_prop user ''password'' = JStr p" "p \<noteq> []" by blast
  have obj: "fst (snd (addUser user st)) = set_prop ''password'' (JStr (hashPassword (JStr p))) user"
    using assms p by (simp add: addUser_object)
  have "map fst (set_prop ''password'' (JStr (hashPassword (JStr p))) user) = map fst user"
    by (rule names_set_prop) (simp add: p)
  with p obj show ?thesis
    by (simp add: get_set_prop length_hashPassword hashPassword_hex)
qed

lemma alice_valid: "validateData dp ((''id'', JNum 1) # alice) user_schema = Inr ()"
  by (simp add: validateData_def user_schema_def alice_def validateColumn_def col_def get_prop_def)

theorem addUser_overwrites_password_witness:
  "validateData (dateParse ready) ((''id'', JNum 1) # alice) user_schema = Inr () \<and>
   fst (snd (addUser ((''id'', JNum 1) # alice) ready)) =
     [(''id'', JNum 1), (''username'', JStr ''alice''),
      (''password'', JStr (hashPassword (JStr ''secret'')))]"
proof -
  have v: "validateData (dateParse ready) ((''id'', JNum 1) # alice) user_schema = Inr ()"
    by (rule alice_valid)
  from addUser_overwrites_password [OF v] obtain p
    where "get_prop ((''id'', JNum 1) # alice) ''password'' = JStr p"
      and "fst (snd (addUser ((''id'', JNum 1) # alice) ready)) =
             set_prop ''password'' (JStr (hashPassword (JStr p))) ((''id'', JNum 1) # alice)"
    by blast
  then show ?thesis using v by (simp add: alice_def get_prop_def set_prop_def)
qed

section \<open>A record that fails validation (C5)\<close>

text \<open>
  C5.  When \<^verbatim>\<open>validateData\<close> throws, each add method rejects with that error and the state
  after the call is the state before it with one more line on the console: the handle, the
  database and the list of opened transactions are the same (no transaction was opened),
  \<^verbatim>\<open>addUser\<close> leaves the caller's object alone, and \<^verbatim>\<open>getNonConformites\<close> and \<^verbatim>\<open>getUser\<close>
  answer afterwards what they would have answered before.
\<close>

theorem rejected_add_touches_nothing:
  "(validateData (dateParse st) user user_schema = Inl e \<longrightarrow>
      addUser user st = (Inl e, user, logError ''USER_ADD_FAILED'' e st)) \<and>
   (validateData (dateParse st) nc nc_schema = Inl e \<longrightarrow>
      addNonConformite nc st = (Inl e, logError ''NC_ADD_FAILED'' e st)) \<and>
   (validateData (dateParse st) action action_schema = Inl e \<longrightarrow>
      addActionCorrective action st = (Inl e, logError ''ACTION_ADD_FAILED'' e st)) \<and>
   db (logError event e st) = db st \<and>
   disk (logError event e st) = disk st \<and>
   opened (logError event e st) = opened st \<and>
   fst (getNonConformites (logError event e st)) = fst (getNonConformites st) \<and>
   fst (getUser username (logError event e st)) = fst (getUser username st)"
proof -
  have "quiet (logError event e st) = quiet st" by simp
  from getNonConformites_quiet [OF this] getUser_quiet [OF this, of username] show ?thesis
    by (simp add: addUser_def addNonConformite_def addActionCorrective_def logError_def)
qed

lemma scenario_B_rejected:
  "validateData dp scenario_B nc_schema =
     Inl (Error (msg_validation [msg_requis ''type_defaut'', msg_requis ''gravite'',
                                 msg_requis ''description'', msg_requis ''id_declarant'']))"
  by (simp add: validateData_def nc_schema_def scenario_B_def validateColumn_def col_def
      get_prop_def)


theorem rejected_add_touches_nothing_witness:
  "validateData (dateParse ready) scenario_B nc_schema =
     Inl (Error (msg_validation [msg_requis ''type_defaut'', msg_requis ''gravite'',
                                 msg_requis ''description'', msg_requis ''id_declarant''])) \<and>
   addNonConformite scenario_B ready =
     (Inl (Error (msg_validation [msg_requis ''type_defaut'', msg_requis ''gravite'',
                                  msg_requis ''description'', msg_requis ''id_declarant''])),
      logError ''NC_ADD_FAILED''
        (Error (msg_validation [msg_requis ''type_defaut'', msg_requis ''gravite'',
                                msg_requis ''description'', msg_requis ''id_declarant'']))
        ready) \<and>
   validateData (dateParse ready) [] user_schema =
     Inl (Error (msg_validation [msg_requis ''username'', msg_requis ''password''])) \<and>
   addUser [] ready =
     (Inl (Error (msg_validation [msg_requis ''username'', msg_requis ''password''])), [],
      logError ''USER_ADD_FAILED''
        (Error (msg_validation [msg_requis ''username'', msg_requis ''password''])) ready) \<and>
   validateData (dateParse ready) [] action_schema =
     Inl (Error (msg_validation [msg_requis ''description'', msg_requis ''responsable'',
                                 msg_requis ''delai'', msg_requis ''id_nc''])) \<and>
   addActionCorrective [] ready =
     (Inl (Error (msg_validation [msg_requis ''description'', msg_requis ''responsable'',
                                  msg_requis ''delai'', msg_requis ''id_nc''])),
      logError ''ACTION_ADD_FAILED''
        (Error (msg_validation [msg_requis ''description'', msg_requis ''responsable'',
                                msg_requis ''delai'', msg_requis ''id_nc''])) ready) \<and>
   fst (getNonConformites (snd (addNonConformite scenario_B ready))) = fst (getNonConformites ready)"
proof -
  let ?eb = "Error (msg_validation [msg_requis ''type_defaut'', msg_requis ''gravite'',
                                 msg_requis ''description'', msg_requis ''id_declarant''])"
  let ?eu = "Error (msg_validation [msg_requis ''username'', msg_requis ''password''])"
  let ?ea = "Error (msg_validation [msg_requis ''description'', msg_requis ''responsable'',
                                 msg_requis ''delai'', msg_requis ''id_nc''])"
  have b: "validateData (dateParse ready) scenario_B nc_schema = Inl ?eb"
    by (rule scenario_B_rejected)
  have u: "validateData (dateParse ready) [] user_schema = Inl ?eu"
    by (simp add: validateData_def user_schema_def validateColumn_def col_def get_prop_def)
  have a: "validateData (dateParse ready) [] action_schema = Inl ?ea"
    by (simp add: validateData_def action_schema_def validateColumn_def col_def get_prop_def)
  from rejected_add_touches_nothing [of ready _ ?eb scenario_B _ "''NC_ADD_FAILED''"] b
  have 1: "addNonConformite scenario_B ready = (Inl ?eb, logError ''NC_ADD_FAILED'' ?eb ready)"
    and 2: "fst (getNonConformites (logError ''NC_ADD_FAILED'' ?eb ready)) = fst (getNonConformites ready)"
    by simp_all
  from rejected_add_touches_nothing [of ready "[]" ?eu] u
  have 3: "addUser [] ready = (Inl ?eu, [], logError ''USER_ADD_FAILED'' ?eu ready)"
    by simp
  from rejected_add_touches_nothing [of ready _ ?ea _ "[]"] a
  have 4: "addActionCorrective [] ready = (Inl ?ea, logError ''ACTION_ADD_FAILED'' ?ea ready)"
    by simp
  from b u a 1 2 3 4 show ?thesis by simp
qed

section \<open>getUser without a match (C9)\<close>

lemma getUser_healthy:
  assumes "db st = Some Live" and "initializationPromise st"
    and "map_of (objectStores (disk st)) ''users'' = Some s"
    and "find (\<lambda>ix. ix_name ix = ''username'') (os_indexes s) = Some ix"
    and "valid_key username"
  shows "getUser username st =
           (Inr (map_option snd
                  (find (\<lambda>r. get_prop (snd r) (ix_keyPath ix) = username) (os_records s))),
            st\<lparr>opened := opened st @ [([''users''], Readonly)]\<rparr>)"
proof -
  from assms(3) have "''users'' \<in> fst ` set (objectStores (disk st))"
    by (auto dest!: map_of_SomeD intro: rev_image_eqI)
  then have "db_transaction [''users''] Readonly st =
      (Inr \<lparr>tx_scope = [''users''], tx_mode = Readonly\<rparr>,
       st\<lparr>opened := opened st @ [([''users''], Readonly)]\<rparr>)"
    using assms(1) by (simp add: db_transaction_def)
  then show ?thesis
    using assms
    by (simp add: getUser_def executeTransaction_def tx_objectStore_def store_index_def
        index_get_def)
qed

text \<open>
  C9.  On an open connection whose \<^verbatim>\<open>users\<close> store has the index \<^verbatim>\<open>username\<close>,
  \<^verbatim>\<open>getUser\<close> with a key resolves with the first record of that index key, and with
  \<^verbatim>\<open>undefined\<close> (\<open>None\<close>) when no record has it.  It rejects, for a key, only when the connection
  is not open or was never initialised, or the store or its index is missing.
\<close>

theorem getUser_absent_is_a_result:
  "(db st = Some Live \<and> initializationPromise st \<and>
    map_of (objectStores (disk st)) ''users'' = Some s \<and>
    find (\<lambda>ix. ix_name ix = ''username'') (os_indexes s) = Some ix \<and> valid_key username \<longrightarrow>
      getUser username st =
        (Inr (map_option snd
               (find (\<lambda>r. get_prop (snd r) (ix_keyPath ix) = username) (os_records s))),
         st\<lparr>opened := opened st @ [([''users''], Readonly)]\<rparr>) \<and>
      (\<not> list_ex (\<lambda>r. get_prop (snd r) (ix_keyPath ix) = username) (os_records s) \<longrightarrow>
         fst (getUser username st) = Inr None)) \<and>
   (fst (getUser username st) = Inl e \<and> valid_key username \<longrightarrow>
      db st \<noteq> Some Live \<or> \<not> initializationPromise st \<or>
      \<not> (\<exists>s ix. map_of (objectStores (disk st)) ''users'' = Some s \<and>
              find (\<lambda>ix. ix_name ix = ''username'') (os_indexes s) = Some ix))"
proof (intro conjI impI)
  assume h: "db st = Some Live \<and> initializationPromise st \<and>
    map_of (objectStores (disk st)) ''users'' = Some s \<and>
    find (\<lambda>ix. ix_name ix = ''username'') (os_indexes s) = Some ix \<and> valid_key username"
  then show g: "getUser username st =
        (Inr (map_option snd
               (find (\<lambda>r. get_prop (snd r) (ix_keyPath ix) = username) (os_records s))),
         st\<lparr>opened := opened st @ [([''users''], Readonly)]\<rparr>)"
    using getUser_healthy by blast
  assume "\<not> list_ex (\<lambda>r. get_prop (snd r) (ix_keyPath ix) = username) (os_records s)"
  then have "find (\<lambda>r. get_prop (snd r) (ix_keyPath ix) = username) (os_records s) = None"
    by (auto simp: find_None_iff list_ex_iff)
  with g show "fst (getUser username st) = Inr None" by simp
next
  assume f: "fst (getUser username st) = Inl e \<and> valid_key username"
  show "db st \<noteq> Some Live \<or> \<not> initializationPromise st \<or>
      \<not> (\<exists>s ix. map_of (objectStores (disk st)) ''users'' = Some s \<and>
              find (\<lambda>ix. ix_name ix = ''username'') (os_indexes s) = Some ix)"
  proof (rule ccontr)
    assume "\<not> ?thesis"
    then obtain s' ix' where "db st = Some Live" "initializationPromise st"
      "map_of (objectStores (disk st)) ''users'' = Some s'"
      "find (\<lambda>ix. ix_name ix = ''username'') (os_indexes s') = Some ix'"
      by auto
    from getUser_healthy [OF this, of username] f show False by auto
  qed
qed

theorem getUser_absent_witness:
  "db ready = Some Live \<and> initializationPromise ready \<and> valid_key (JStr ''alice'') \<and>
   fst (getUser (JStr ''alice'') ready) = Inr None"
proof -
  let ?s = "\<lparr>os_keyPath = ''id'', os_generator = None, os_records = [],
       os_indexes =
        [\<lparr>ix_name = ''username'', ix_keyPath = ''username'', ix_unique = True\<rparr>,
         \<lparr>ix_name = ''password'', ix_keyPath = ''password'', ix_unique = False\<rparr>,
         \<lparr>ix_name = ''role'', ix_keyPath = ''role'', ix_unique = False\<rparr>,
         \<lparr>ix_name = ''email'', ix_keyPath = ''email'', ix_unique = False\<rparr>]\<rparr>"
  let ?ix = "\<lparr>ix_name = ''username'', ix_keyPath = ''username'', ix_unique = True\<rparr>"
  have h: "db ready = Some Live \<and> initializationPromise ready \<and>
    map_of (objectStores (disk ready)) ''users'' = Some ?s \<and>
    find (\<lambda>ix. ix_name ix = ''username'') (os_indexes ?s) = Some ?ix \<and> valid_key (JStr ''alice'')"
    by (simp add: ready_eq users_store)
  have n: "\<not> list_ex (\<lambda>r. get_prop (snd r) (ix_keyPath ?ix) = JStr ''alice'') (os_records ?s)"
    by simp
  from getUser_absent_is_a_result [of ready ?s ?ix "JStr ''alice''", THEN conjunct1, rule_format, OF h]
    n h
  show ?thesis by blast
qed

section \<open>The add methods on the declared stores (C1, C2, C4, C6)\<close>

lemma alice_valid0: "validateData dp alice user_schema = Inr ()"
  by (simp add: validateData_def user_schema_def alice_def validateColumn_def col_def get_prop_def)

lemma bob_valid: "validateData dp ((''id'', JNum 3) # bob) user_schema = Inr ()"
  by (simp add: validateData_def user_schema_def bob_def validateColumn_def col_def get_prop_def)

lemma alice5_valid: "validateData dp ((''id'', JNum 5) # alice) user_schema = Inr ()"
  by (simp add: validateData_def user_schema_def alice_def validateColumn_def col_def get_prop_def)

lemma addUser_alice:
  "addUser alice ready =
     (Inl (DOMException ''DataError''),
      [(''username'', JStr ''alice''), (''password'', JStr (hashPassword (JStr ''secret'')))],
      logError ''USER_ADD_FAILED'' (DOMException ''DataError'')
        (logError ''TRANSACTION_FAILED'' (DOMException ''DataError'')
          (ready\<lparr>opened := [([''users''], Readwrite)]\<rparr>)))"
  apply (simp add: addUser_def alice_valid0)
  apply (simp add: alice_def get_prop_def set_prop_def executeTransaction_def ready_eq
      db_transaction_def store_names request_add_def tx_objectStore_def users_store
      store_add_def logError_def)
  done


lemmas run_defs = executeTransaction_def db_transaction_def request_add_def tx_objectStore_def
  store_add_def store_insert_def unique_clash_def logError_def get_prop_def set_prop_def Let_def

lemma addUser_alice5:
  "addUser ((''id'', JNum 5) # alice) ready =
     (Inr (JNum 5),
      [(''id'', JNum 5), (''username'', JStr ''alice''),
       (''password'', JStr (hashPassword (JStr ''secret'')))],
      ready\<lparr>disk := \<lparr>version = 1, objectStores =
                 AList.update ''users''
                   \<lparr>os_keyPath = ''id'', os_generator = None,
                    os_records = [(JNum 5, [(''id'', JNum 5), (''username'', JStr ''alice''),
                       (''password'', JStr (hashPassword (JStr ''secret'')))])],
                    os_indexes =
                     [\<lparr>ix_name = ''username'', ix_keyPath = ''username'', ix_unique = True\<rparr>,
                      \<lparr>ix_name = ''password'', ix_keyPath = ''password'', ix_unique = False\<rparr>,
                      \<lparr>ix_name = ''role'', ix_keyPath = ''role'', ix_unique = False\<rparr>,
                      \<lparr>ix_name = ''email'', ix_keyPath = ''email'', ix_unique = False\<rparr>]\<rparr>
                   declared_stores\<rparr>,
             opened := [([''users''], Readwrite)]\<rparr>)"
  apply (simp add: addUser_def alice5_valid)
  apply (simp add: alice_def ready_eq store_names users_store run_defs)
  done

lemma users_after:
  "map_of (AList.update ''users'' s declared_stores) ''users'' = Some s"
  "map fst (AList.update ''users'' s declared_stores) =
     [''actions_correctives'', ''non_conformites'', ''users'']"
  by (simp_all add: update_conv' update_keys store_names)

text \<open>
  C1.  The stores are created with a key path and without a key generator, so the store
  assigns no key: \<^verbatim>\<open>addUser\<close> of a record without \<^verbatim>\<open>id\<close> is rejected with a \<^verbatim>\<open>DataError\<close>, and
  a record is stored under the \<^verbatim>\<open>id\<close> its caller gave it, here 5 and then 3.
\<close>

theorem addUser_key_comes_from_caller:
  "fst (addUser alice ready) = Inl (DOMException ''DataError'') \<and>
   fst (addUser ((''id'', JNum 5) # alice) ready) = Inr (JNum 5) \<and>
   fst (addUser ((''id'', JNum 3) # bob) (snd (snd (addUser ((''id'', JNum 5) # alice) ready))))
     = Inr (JNum 3)"
  apply (simp add: addUser_alice addUser_alice5)
  apply (simp add: addUser_def bob_valid)
  apply (simp add: bob_def ready_eq users_after run_defs)
  done

text \<open>
  C6, scenario C.  \<^verbatim>\<open>addUser({username: "alice", password: "secret"})\<close> is rejected by the
  store, which has no key for the record, and \<^verbatim>\<open>getUser("alice")\<close> then finds no record.  The
  digest itself has 64 hexadecimal digits (\<open>length_hashPassword\<close>, \<open>hashPassword_hex\<close>).
\<close>

theorem scenario_C_finds_no_user:
  "fst (addUser alice ready) = Inl (DOMException ''DataError'') \<and>
   fst (getUser (JStr ''alice'') (snd (snd (addUser alice ready)))) = Inr None"
  apply (simp add: addUser_alice)
  apply (simp add: getUser_def ready_eq store_names users_store run_defs store_index_def
      index_get_def)
  done

lemma scenario_A_throws: "validateData dp scenario_A nc_schema = Inl TypeError"
  by (simp add: validateData_def nc_schema_def scenario_A_def validateColumn_def col_def
      get_prop_def)

lemma scenario_D_throws: "validateData dp scenario_D nc_schema = Inl TypeError"
  by (simp add: validateData_def nc_schema_def scenario_D_def validateColumn_def col_def
      get_prop_def)

lemma nc_store:
  "map_of declared_stores ''non_conformites'' =
     Some \<lparr>os_keyPath = ''id'', os_generator = None, os_records = [],
       os_indexes =
        [\<lparr>ix_name = ''type_defaut'', ix_keyPath = ''type_defaut'', ix_unique = False\<rparr>,
         \<lparr>ix_name = ''poste'', ix_keyPath = ''poste'', ix_unique = False\<rparr>,
         \<lparr>ix_name = ''gravite'', ix_keyPath = ''gravite'', ix_unique = False\<rparr>,
         \<lparr>ix_name = ''description'', ix_keyPath = ''description'', ix_unique = False\<rparr>,
         \<lparr>ix_name = ''statut'', ix_keyPath = ''statut'', ix_unique = False\<rparr>,
         \<lparr>ix_name = ''date_creation'', ix_keyPath = ''date_creation'', ix_unique = False\<rparr>,
         \<lparr>ix_name = ''id_declarant'', ix_keyPath = ''id_declarant'', ix_unique = False\<rparr>]\<rparr>"
  by (simp add: declared_stores_eq)

text \<open>
  C2, scenario A.  The schema \<^verbatim>\<open>addNonConformite\<close> validates against has an \<^verbatim>\<open>enum\<close> column
  without \<^verbatim>\<open>options\<close>, so a record that gives \<^verbatim>\<open>gravite\<close> is rejected with a \<^verbatim>\<open>TypeError\<close>
  and the list stays empty.  No add method reads a column default: the user stored without
  \<^verbatim>\<open>role\<close> comes back without \<^verbatim>\<open>role\<close>.
\<close>

theorem scenario_A_is_rejected:
  "addNonConformite scenario_A ready = (Inl TypeError, logError ''NC_ADD_FAILED'' TypeError ready) \<and>
   fst (getNonConformites (snd (addNonConformite scenario_A ready))) = Inr [] \<and>
   fst (getUser (JStr ''alice'') (snd (snd (addUser ((''id'', JNum 5) # alice) ready)))) =
     Inr (Some [(''id'', JNum 5), (''username'', JStr ''alice''),
                (''password'', JStr (hashPassword (JStr ''secret'')))])"
  apply (simp add: addNonConformite_def scenario_A_throws addUser_alice5)
  apply (simp add: getNonConformites_def getUser_def ready_eq store_names nc_store users_after
      run_defs store_getAll_def store_index_def index_get_def)
  done

text \<open>
  C4.  A record with several violations, one of them a \<^verbatim>\<open>gravite\<close> outside the enumeration,
  is rejected with the \<^verbatim>\<open>TypeError\<close> of the missing \<^verbatim>\<open>options\<close>, which names no column.  Where
  no column throws, the loop does collect every violation (\<open>validateLoop_collects\<close>), as in
  scenario B (\<open>scenario_B_rejected\<close>).
\<close>

theorem scenario_D_is_a_type_error:
  "validateData (dateParse ready) scenario_D nc_schema = Inl TypeError \<and>
   addNonConformite scenario_D ready = (Inl TypeError, logError ''NC_ADD_FAILED'' TypeError ready)"
  by (simp add: addNonConformite_def scenario_D_throws)

section \<open>Keys and digests\<close>

text \<open>
  A store without key generator takes its keys from the records: it refuses a record without
  key, answers the caller's key, and refuses a key it already holds.  The digest differs from
  any password that is not itself 64 characters long, and the model of SHA-256 computes the
  known digest of \<^verbatim>\<open>secret\<close>.
\<close>

lemma hashPassword_differs: "length (ToString p) \<noteq> 64 \<Longrightarrow> hashPassword p \<noteq> ToString p"
  using length_hashPassword [of p] by auto

lemma store_insert_existing_key:
  "k \<in> set (map fst (os_records s)) \<Longrightarrow> store_insert s k v = Inl (DOMException ''ConstraintError'')"
  by (simp add: store_insert_def)

lemma store_add_without_generator:
  "os_generator s = None \<Longrightarrow> get_prop v (os_keyPath s) = JUndefined \<Longrightarrow>
     store_add s v = Inl (DOMException ''DataError'')"
  by (simp add: store_add_def)

lemma store_add_callers_key:
  "store_add s v = Inr (k, s') \<Longrightarrow> os_generator s = None \<Longrightarrow> k = get_prop v (os_keyPath s)"
  by (auto simp: store_add_def store_insert_def Let_def split: if_splits)

lemma digest_of_secret:
  "hashPassword (JStr ''secret'') =
     ''2bb80d537b1da3e38bd30361aa855686bde0eacd7162fef6a25fe97bf527a25b''"
  by code_simp

section \<open>createTables never gets its transaction\<close>

text \<open>
  \<^verbatim>\<open>db.transaction\<close> hands out no \<^verbatim>\<open>versionchange\<close> transaction, so \<^verbatim>\<open>createTables\<close> throws before
  its loop and \<^verbatim>\<open>initDatabase\<close> rejects whatever the browser holds.  In a browser without the
  database the upgrade is aborted, the stores are not created and the manager keeps a closed
  connection: an add is then rejected by \<^verbatim>\<open>db.transaction\<close>.
\<close>

lemma versionchange_refused: "\<exists>e. fst (db_transaction ns Versionchange st) = Inl e"
  by (simp add: db_transaction_def split: option.splits connection.splits)

lemma createTables_throws: "\<exists>e. fst (createTables st) = Inl e"
proof (cases "db st = None")
  case True
  then show ?thesis by (simp add: createTables_def)
next
  case False
  obtain r s where t: "db_transaction [''users'', ''non_conformites'', ''actions_correctives'']
      Versionchange st = (r, s)"
    by (cases "db_transaction [''users'', ''non_conformites'', ''actions_correctives'']
      Versionchange st")
  with versionchange_refused [of "[''users'', ''non_conformites'', ''actions_correctives'']" st]
  obtain e where "r = Inl e" by auto
  with False t show ?thesis by (simp add: createTables_def)
qed

lemma initDatabase_rejects: "\<exists>e. fst (initDatabase st) = Inl e"
proof -
  have a: "\<exists>e. fst (after_open s) = Inl e" for s
  proof -
    obtain r s' where c: "createTables s = (r, s')" by (cases "createTables s")
    with createTables_throws [of s] obtain e where "r = Inl e" by auto
    with c show ?thesis by (simp add: after_open_def)
  qed
  let ?u = "logInfo ''DB_UPGRADE_NEEDED''
     (st\<lparr>initializationPromise := True, db := Some Upgrading\<rparr>)"
  obtain r s' where c: "createTables ?u = (r, s')" by (cases "createTables ?u")
  with createTables_throws [of ?u] obtain e where e: "r = Inl e" by auto
  show ?thesis
    using a c e by (simp add: initDatabase_def Let_def open_failed_def)
qed

lemma fresh_browser_rejects:
  "fst (addUser ((''id'', JNum 5) # alice)
         (constructor True no_date \<lparr>version = 0, objectStores = []\<rparr>))
     = Inl (DOMException ''InvalidStateError'')"
  by (simp add: addUser_def alice5_valid fresh_eq executeTransaction_def db_transaction_def
      Let_def)

end
